theory Spec2Isabelle
  imports Main "HOL-Library.Word" "HOL-Library.Sublist"
begin

section \<open>JavaScript strings\<close>

text \<open>
  A TypeScript string is a sequence of UTF-16 code units. String literals of the source
  are written with \<open>js\<close>; the apostrophe, which an Isabelle literal cannot hold, is the
  code unit \<open>0x27\<close>.
\<close>

type_synonym jsstring = "16 word list"

definition js :: "string \<Rightarrow> jsstring" where
  "js s = map of_char s"

definition apos :: jsstring where
  "apos = [0x27]"

text \<open>
  \<open>String.prototype.trim\<close> removes leading and trailing code units that are WhiteSpace or
  LineTerminator of ECMAScript: TAB, LF, VT, FF, CR, SP, NBSP, U+1680, U+2000 to U+200A,
  U+2028, U+2029, U+202F, U+205F, U+3000 and U+FEFF.
\<close>

definition is_ws :: "16 word \<Rightarrow> bool" where
  "is_ws c \<longleftrightarrow> c \<in> {0x09, 0x0A, 0x0B, 0x0C, 0x0D, 0x20, 0xA0, 0x1680,
     0x2000, 0x2001, 0x2002, 0x2003, 0x2004, 0x2005, 0x2006, 0x2007, 0x2008, 0x2009, 0x200A,
     0x2028, 0x2029, 0x202F, 0x205F, 0x3000, 0xFEFF}"

definition trim :: "jsstring \<Rightarrow> jsstring" where
  "trim s = rev (dropWhile is_ws (rev (dropWhile is_ws s)))"

text \<open>
  \<open>s.split(sep)\<close> for a separator of one code unit (the source splits on \<open>","\<close> and
  on \<open>"\n"\<close> only): the empty string gives one empty token.
\<close>

fun split_on :: "16 word \<Rightarrow> jsstring \<Rightarrow> jsstring list" where
  "split_on c [] = [[]]"
| "split_on c (x # xs) =
     (if x = c then [] # split_on c xs
      else (case split_on c xs of
              [] \<Rightarrow> [[x]]
            | t # ts \<Rightarrow> (x # t) # ts))"

text \<open>\<open>xs.join(sep)\<close>: the empty array gives the empty string.\<close>

fun join_with :: "jsstring \<Rightarrow> jsstring list \<Rightarrow> jsstring" where
  "join_with sep [] = []"
| "join_with sep [t] = t"
| "join_with sep (t # u # ts) = t @ sep @ join_with sep (u # ts)"

definition comma :: "16 word" where
  "comma = 0x2C"

definition colon :: "16 word" where
  "colon = 0x3A"

text \<open>\<open>String(n)\<close> for a non-negative integer: its decimal digits.\<close>

fun show_nat :: "nat \<Rightarrow> jsstring" where
  "show_nat n = (if n < 10 then [of_nat (48 + n)] else show_nat (n div 10) @ [of_nat (48 + n mod 10)])"

section \<open>Input Normalizer\<close>

text \<open>
  \<^verbatim>\<open>function parseInputList(input: string): string[] {
      return input.split(",").map(item => item.trim()).filter(item => item);
  }\<close>
  A string is truthy when it is not empty.
\<close>

definition parseInputList :: "jsstring \<Rightarrow> jsstring list" where
  "parseInputList input = filter (\<lambda>item. item \<noteq> []) (map (\<lambda>item. trim item) (split_on comma input))"


section \<open>Errors, promises, events and the host\<close>

text \<open>
  A thrown value is an \<open>Error\<close> object: its name, its optional \<open>code\<close> (the resolver
  sets it, for instance \<open>ENOTFOUND\<close>) and its message. A function that may throw returns
  \<open>Inl\<close> of the error; every function returns the log it has produced so far.
\<close>

datatype js_error = JsError (err_name: jsstring) (err_code: "jsstring option") (err_message: jsstring)

definition mk_error :: "jsstring \<Rightarrow> js_error" where
  "mk_error msg = JsError (js ''Error'') None msg"

text \<open>\<open>String(err)\<close>, as \<open>Error.prototype.toString\<close> builds it.\<close>

definition err_toString :: "js_error \<Rightarrow> jsstring" where
  "err_toString e =
     (if err_message e = [] then err_name e
      else if err_name e = [] then err_message e
      else err_name e @ js '': '' @ err_message e)"

text \<open>
  What one invocation does to the outside, in order: the log lines of \<open>core.info\<close> and
  \<open>core.warning\<close>, the failure signal of \<open>core.setFailed\<close>, the processes started by
  \<open>exec\<close> (tool and arguments), the resolver queries, the file operations and the waits.
\<close>

datatype event =
    Info jsstring
  | Warning jsstring
  | SetFailed jsstring
  | Exec jsstring "jsstring list"
  | Resolve4 jsstring
  | Resolve6 jsstring
  | Mkdtemp jsstring
  | WriteFile jsstring jsstring
  | MkdirP jsstring
  | Sleep nat

type_synonym trace = "event list"

type_synonym 'a result = "(js_error + 'a) \<times> trace"

text \<open>
  A pending operation either never settles or settles after some milliseconds, fulfilled
  (\<open>Inr\<close>) or rejected (\<open>Inl\<close>). A timer of \<open>d\<close> milliseconds started with it fires first
  unless the operation settles after fewer than \<open>d\<close> milliseconds.
\<close>

datatype 'a promise = Never | Settles nat "js_error + 'a"

text \<open>A started process ends with an exit code, or could not be run at all.\<close>

datatype proc = Exited nat | NotRun js_error

text \<open>
  The host: everything the action reads from outside. The answer to a command, a query
  or a file operation may depend on all that happened before, so each takes the events so
  far. A started process always ends, after the given number of milliseconds.
  \<open>which\<close> gives the path at which the toolkit finds a tool, \<open>base64_utf8\<close> is
  \<open>Buffer.from(s, "base64").toString("utf8")\<close>, \<open>toLowerCase\<close> and \<open>path_join\<close> are
  the runtime's functions of these names.
\<close>

record env =
  platform :: jsstring
  input_raw :: "jsstring \<Rightarrow> jsstring"
  which :: "jsstring \<Rightarrow> jsstring"
  exec_oracle :: "trace \<Rightarrow> jsstring \<Rightarrow> jsstring list \<Rightarrow> nat \<times> proc"
  resolve4_oracle :: "trace \<Rightarrow> jsstring \<Rightarrow> jsstring list promise"
  resolve6_oracle :: "trace \<Rightarrow> jsstring \<Rightarrow> jsstring list promise"
  tmpdir :: jsstring
  path_join :: "jsstring \<Rightarrow> jsstring \<Rightarrow> jsstring"
  mkdtemp_oracle :: "trace \<Rightarrow> jsstring \<Rightarrow> js_error + jsstring"
  writeFile_oracle :: "trace \<Rightarrow> jsstring \<Rightarrow> jsstring \<Rightarrow> js_error option"
  mkdirP_oracle :: "trace \<Rightarrow> jsstring \<Rightarrow> js_error option"
  base64_utf8 :: "jsstring \<Rightarrow> jsstring"
  toLowerCase :: "jsstring \<Rightarrow> jsstring"

subsection \<open>The toolkit: \<open>core.getInput\<close> and \<open>exec.exec\<close>\<close>

text \<open>
  \<open>core.getInput(name, {required})\<close>: the raw value is the empty string when the input
  is not supplied; a required input that is empty throws; the value is returned trimmed.
\<close>

definition getInput :: "env \<Rightarrow> jsstring \<Rightarrow> bool \<Rightarrow> js_error + jsstring" where
  "getInput w name required =
     (let val = input_raw w name in
      if required \<and> val = [] then Inl (mk_error (js ''Input required and not supplied: '' @ name))
      else Inr (trim val))"

text \<open>
  \<open>exec.exec(tool, args, {ignoreReturnCode})\<close> rejects when the process could not be run,
  and when it exits with a code other than 0 unless \<open>ignoreReturnCode\<close> is set (the
  toolkit's message names the path of the tool and the exit code); otherwise it gives the
  exit code.
\<close>

definition exec_settle :: "proc \<Rightarrow> jsstring \<Rightarrow> bool \<Rightarrow> js_error + nat" where
  "exec_settle p toolPath ignoreReturnCode =
     (case p of
        NotRun e \<Rightarrow> Inl e
      | Exited c \<Rightarrow>
          if c \<noteq> 0 \<and> \<not> ignoreReturnCode
          then Inl (mk_error (js ''The process '' @ apos @ toolPath @ apos @ js '' failed with exit code '' @ show_nat c))
          else Inr c)"

definition exec_promise :: "env \<Rightarrow> trace \<Rightarrow> jsstring \<Rightarrow> jsstring list \<Rightarrow> bool \<Rightarrow> nat promise" where
  "exec_promise w tr tool args ignoreReturnCode =
     (case exec_oracle w tr tool args of
        (t, p) \<Rightarrow> Settles t (exec_settle p (which w tool) ignoreReturnCode))"

definition exec_exec :: "env \<Rightarrow> trace \<Rightarrow> jsstring \<Rightarrow> jsstring list \<Rightarrow> bool \<Rightarrow> nat result" where
  "exec_exec w tr tool args ignoreReturnCode =
     (exec_settle (snd (exec_oracle w tr tool args)) (which w tool) ignoreReturnCode, tr @ [Exec tool args])"

text \<open>\<open>await p\<close> of a promise that may never settle: \<open>None\<close> when it never does.\<close>

definition await_promise :: "'a promise \<Rightarrow> (js_error + 'a) option" where
  "await_promise p = (case p of Never \<Rightarrow> None | Settles t r \<Rightarrow> Some r)"

text \<open>
  \<open>Promise.race([p, timer])\<close> where the timer rejects with \<open>e\<close> after \<open>timeoutMs\<close>, as
  \<open>testConnectivity\<close> builds it.
\<close>

definition race_reject :: "'a promise \<Rightarrow> nat \<Rightarrow> js_error \<Rightarrow> js_error + 'a" where
  "race_reject p timeoutMs e =
     (case p of
        Never \<Rightarrow> Inl e
      | Settles t r \<Rightarrow> if t < timeoutMs then r else Inl e)"


section \<open>The action (\<open>src/index.ts\<close>)\<close>

subsection \<open>Interface Existence Query and Route Applicator\<close>

text \<open>
  \<^verbatim>\<open>const result = await exec.getExecOutput("ip", ["link", "show", iface],
             {ignoreReturnCode: true, silent: true});
  return result.exitCode === 0;\<close>
\<close>

definition checkInterfaceExists :: "env \<Rightarrow> trace \<Rightarrow> jsstring \<Rightarrow> bool result" where
  "checkInterfaceExists w tr iface =
     (case exec_exec w tr (js ''ip'') [js ''link'', js ''show'', iface] True of
        (Inl e, tr') \<Rightarrow> (Inl e, tr')
      | (Inr exitCode, tr') \<Rightarrow> (Inr (exitCode = 0), tr'))"

text \<open>
  \<^verbatim>\<open>const isIpv6 = ip.includes(":");
  const cidr = isIpv6 ? `${ip}/128` : `${ip}/32`;
  const ipCommand = isIpv6 ? ["ip", "-6"] : ["ip"];
  await exec.exec("sudo", [...ipCommand, "route", "add", cidr, "dev", iface]);\<close>
\<close>

definition addSingleRoute :: "env \<Rightarrow> trace \<Rightarrow> jsstring \<Rightarrow> jsstring \<Rightarrow> unit result" where
  "addSingleRoute w tr ip iface =
     (let isIpv6 = (colon \<in> set ip);
          cidr = (if isIpv6 then ip @ js ''/128'' else ip @ js ''/32'');
          ipCommand = (if isIpv6 then [js ''ip'', js ''-6''] else [js ''ip''])
      in case exec_exec w tr (js ''sudo'') (ipCommand @ [js ''route'', js ''add'', cidr, js ''dev'', iface]) False of
           (Inl e, tr') \<Rightarrow> (Inl e, tr')
         | (Inr _, tr') \<Rightarrow> (Inr (), tr'))"

subsection \<open>Address Resolver\<close>

text \<open>
  \<^verbatim>\<open>const resolveWithTimeout = async <T>(promise: Promise<T>, timeoutMs: number) => {
      const timeoutPromise = new Promise<null>((resolve) =>
          setTimeout(() => resolve(null), timeoutMs));
      return Promise.race([promise, timeoutPromise]);
  };\<close>
  \<open>None\<close> is the \<open>null\<close> of the timer.
\<close>

definition resolveWithTimeout :: "'a promise \<Rightarrow> nat \<Rightarrow> js_error + 'a option" where
  "resolveWithTimeout promise timeoutMs =
     (case promise of
        Never \<Rightarrow> Inr None
      | Settles t r \<Rightarrow>
          if t < timeoutMs then (case r of Inl e \<Rightarrow> Inl e | Inr v \<Rightarrow> Inr (Some v))
          else Inr None)"

definition ENOTFOUND :: jsstring where
  "ENOTFOUND = js ''ENOTFOUND''"

definition ENODATA :: jsstring where
  "ENODATA = js ''ENODATA''"

text \<open>
  One family of \<open>resolveDomainIPs\<close>: the \<open>try\<close> block around the bounded lookup. An
  array is truthy even when empty, so only the timer's \<open>null\<close> takes the \<open>else\<close>
  branch. \<open>fam\<close> is \<open>IPv4\<close> or \<open>IPv6\<close>; the result is the addresses pushed and the log.
\<close>

definition resolve_family :: "jsstring \<Rightarrow> jsstring list promise \<Rightarrow> jsstring \<Rightarrow> trace \<Rightarrow> jsstring list \<times> trace" where
  "resolve_family fam promise domain tr =
     (case resolveWithTimeout promise 5000 of
        Inr (Some addresses) \<Rightarrow> (addresses, tr)
      | Inr None \<Rightarrow> ([], tr @ [Warning (fam @ js '' resolution for '' @ domain @ js '' timed out'')])
      | Inl err \<Rightarrow>
          if err_code err \<noteq> Some ENOTFOUND \<and> err_code err \<noteq> Some ENODATA
          then ([], tr @ [Warning (js ''Failed to resolve '' @ fam @ js '' for '' @ domain @ js '': '' @ err_message err)])
          else ([], tr))"

definition resolveDomainIPs :: "env \<Rightarrow> trace \<Rightarrow> jsstring \<Rightarrow> jsstring list result" where
  "resolveDomainIPs w tr domain =
     (case resolve_family (js ''IPv4'') (resolve4_oracle w tr domain) domain (tr @ [Resolve4 domain]) of
        (ips4, tr1) \<Rightarrow>
          (case resolve_family (js ''IPv6'') (resolve6_oracle w tr1 domain) domain (tr1 @ [Resolve6 domain]) of
             (ips6, tr2) \<Rightarrow> (Inr (ips4 @ ips6), tr2)))"

subsection \<open>Batch route application\<close>

text \<open>
  The inner loop of \<open>addRoutesForDomains\<close>:
  \<^verbatim>\<open>for (const ip of ips) {
      try {
          core.info(`Adding route for ${domain} (${ip}) via ${iface}`);
          await addSingleRoute(ip, iface);
          routeCount++;
          allIPs.push(ip);
      } catch (err: any) {
          core.warning(`Failed to add route for ${ip}: ${err.message}`);
      }
  }\<close>
  The state of the loop is the log, \<open>routeCount\<close> and \<open>allIPs\<close>.
\<close>

fun addRoutesForDomains_ips :: "env \<Rightarrow> jsstring \<Rightarrow> jsstring \<Rightarrow> jsstring list \<Rightarrow> trace \<Rightarrow> nat \<Rightarrow> jsstring list
    \<Rightarrow> trace \<times> nat \<times> jsstring list" where
  "addRoutesForDomains_ips w domain iface [] tr routeCount allIPs = (tr, routeCount, allIPs)"
| "addRoutesForDomains_ips w domain iface (ip # ips) tr routeCount allIPs =
     (case addSingleRoute w
             (tr @ [Info (js ''Adding route for '' @ domain @ js '' ('' @ ip @ js '') via '' @ iface)]) ip iface of
        (Inr _, tr') \<Rightarrow> addRoutesForDomains_ips w domain iface ips tr' (routeCount + 1) (allIPs @ [ip])
      | (Inl err, tr') \<Rightarrow>
          addRoutesForDomains_ips w domain iface ips
            (tr' @ [Warning (js ''Failed to add route for '' @ ip @ js '': '' @ err_message err)])
            routeCount allIPs)"

text \<open>
  The outer loop: \<open>resolveDomainIPs\<close> is awaited outside any \<open>try\<close>, so an error of it
  would leave the loop.
\<close>

fun addRoutesForDomains_loop :: "env \<Rightarrow> jsstring \<Rightarrow> jsstring list \<Rightarrow> trace \<Rightarrow> nat \<Rightarrow> jsstring list
    \<Rightarrow> (nat \<times> jsstring list) result" where
  "addRoutesForDomains_loop w iface [] tr routeCount allIPs = (Inr (routeCount, allIPs), tr)"
| "addRoutesForDomains_loop w iface (domain # domains) tr routeCount allIPs =
     (case resolveDomainIPs w (tr @ [Info (js ''Resolving '' @ domain @ js ''...'')]) domain of
        (Inl e, tr') \<Rightarrow> (Inl e, tr')
      | (Inr ips, tr') \<Rightarrow>
          (case addRoutesForDomains_ips w domain iface ips tr' routeCount allIPs of
             (tr'', routeCount', allIPs') \<Rightarrow> addRoutesForDomains_loop w iface domains tr'' routeCount' allIPs'))"

definition addRoutesForDomains :: "env \<Rightarrow> trace \<Rightarrow> jsstring list \<Rightarrow> jsstring \<Rightarrow> jsstring list result" where
  "addRoutesForDomains w tr domains iface =
     (if domains = [] then (Inr [], tr)
      else case addRoutesForDomains_loop w iface domains
                  (tr @ [Info (js ''Adding routes for '' @ show_nat (length domains) @ js '' domain(s)...'')]) 0 [] of
             (Inl e, tr') \<Rightarrow> (Inl e, tr')
           | (Inr (routeCount, allIPs), tr') \<Rightarrow>
               (Inr allIPs, tr' @ [Info (js ''Added '' @ show_nat routeCount @ js '' route(s) for domains.'')]))"

text \<open>
  The loop of \<open>addRoutesForIPs\<close>:
  \<^verbatim>\<open>for (const ip of ips) {
      try {
          const cidr = ip.includes(":") ? `${ip}/128` : `${ip}/32`;
          core.info(`Adding route for ${cidr} via ${iface}`);
          await addSingleRoute(ip, iface);
          routeCount++;
      } catch (err: any) {
          core.warning(`Failed to add route for ${ip}: ${err.message}`);
      }
  }\<close>
\<close>

fun addRoutesForIPs_loop :: "env \<Rightarrow> jsstring \<Rightarrow> jsstring list \<Rightarrow> trace \<Rightarrow> nat \<Rightarrow> trace \<times> nat" where
  "addRoutesForIPs_loop w iface [] tr routeCount = (tr, routeCount)"
| "addRoutesForIPs_loop w iface (ip # ips) tr routeCount =
     (let cidr = (if colon \<in> set ip then ip @ js ''/128'' else ip @ js ''/32'')
      in case addSingleRoute w (tr @ [Info (js ''Adding route for '' @ cidr @ js '' via '' @ iface)]) ip iface of
           (Inr _, tr') \<Rightarrow> addRoutesForIPs_loop w iface ips tr' (routeCount + 1)
         | (Inl err, tr') \<Rightarrow>
             addRoutesForIPs_loop w iface ips
               (tr' @ [Warning (js ''Failed to add route for '' @ ip @ js '': '' @ err_message err)])
               routeCount)"

definition addRoutesForIPs :: "env \<Rightarrow> trace \<Rightarrow> jsstring list \<Rightarrow> jsstring \<Rightarrow> unit result" where
  "addRoutesForIPs w tr ips iface =
     (if ips = [] then (Inr (), tr)
      else case addRoutesForIPs_loop w iface ips
                  (tr @ [Info (js ''Adding routes for '' @ show_nat (length ips) @ js '' IP address(es)...'')]) 0 of
             (tr', routeCount) \<Rightarrow>
               (Inr (), tr' @ [Info (js ''Added '' @ show_nat routeCount @ js '' route(s) for IPs.'')]))"

text \<open>
  \<^verbatim>\<open>const domainIPs = await addRoutesForDomains(domains, iface);
  await addRoutesForIPs(ips, iface);
  return [...domainIPs, ...ips];\<close>
\<close>

definition addRoutes :: "env \<Rightarrow> trace \<Rightarrow> jsstring list \<Rightarrow> jsstring list \<Rightarrow> jsstring \<Rightarrow> jsstring list result" where
  "addRoutes w tr domains ips iface =
     (case addRoutesForDomains w tr domains iface of
        (Inl e, tr') \<Rightarrow> (Inl e, tr')
      | (Inr domainIPs, tr') \<Rightarrow>
          (case addRoutesForIPs w tr' ips iface of
             (Inl e, tr'') \<Rightarrow> (Inl e, tr'')
           | (Inr _, tr'') \<Rightarrow> (Inr (domainIPs @ ips), tr'')))"

subsection \<open>Reachability Prober\<close>

text \<open>
  The loop of \<open>testConnectivity\<close>, over \<open>ips.slice(0, 3)\<close>:
  \<^verbatim>\<open>try {
      core.info(`Pinging ${ip}...`);
      const pingCmd = ip.includes(":") ? "ping6" : "ping";
      const pingPromise = exec.exec(pingCmd, ["-c", "2", "-W", "3", ip], {ignoreReturnCode: true});
      const timeoutPromise = new Promise<void>((_, reject) =>
          setTimeout(() => reject(new Error("Ping timeout")), 10000));
      await Promise.race([pingPromise, timeoutPromise]);
  } catch (err: any) {
      core.warning(`Ping test for ${ip} failed or timed out: ${err.message}`);
  }\<close>
\<close>

fun testConnectivity_loop :: "env \<Rightarrow> jsstring list \<Rightarrow> trace \<Rightarrow> trace" where
  "testConnectivity_loop w [] tr = tr"
| "testConnectivity_loop w (ip # ips) tr =
     (let tr1 = tr @ [Info (js ''Pinging '' @ ip @ js ''...'')];
          pingCmd = (if colon \<in> set ip then js ''ping6'' else js ''ping'');
          args = [js ''-c'', js ''2'', js ''-W'', js ''3'', ip];
          pingPromise = exec_promise w tr1 pingCmd args True;
          tr2 = tr1 @ [Exec pingCmd args]
      in case race_reject pingPromise 10000 (mk_error (js ''Ping timeout'')) of
           Inr _ \<Rightarrow> testConnectivity_loop w ips tr2
         | Inl err \<Rightarrow>
             testConnectivity_loop w ips
               (tr2 @ [Warning (js ''Ping test for '' @ ip @ js '' failed or timed out: '' @ err_message err)]))"

definition testConnectivity :: "env \<Rightarrow> trace \<Rightarrow> jsstring list \<Rightarrow> unit result" where
  "testConnectivity w tr ips =
     (if ips = [] then (Inr (), tr)
      else (Inr (), testConnectivity_loop w (take 3 ips)
                      (tr @ [Info (js ''Testing connectivity to routed IPs...'')])))"


subsection \<open>Tunnel Bring-Up\<close>

definition installWireGuard :: "env \<Rightarrow> trace \<Rightarrow> unit result" where
  "installWireGuard w tr =
     (case exec_exec w (tr @ [Info (js ''Installing WireGuard...'')]) (js ''sudo'')
             [js ''apt-get'', js ''install'', js ''-y'', js ''wireguard''] False of
        (Inl e, tr') \<Rightarrow> (Inl e, tr')
      | (Inr _, tr') \<Rightarrow> (Inr (), tr'))"

text \<open>
  \<^verbatim>\<open>configContent = configContent.split("\n")
      .filter(line => !line.trim().toLowerCase().startsWith("dns"))
      .join("\n");\<close>
\<close>

definition strip_dns_lines :: "env \<Rightarrow> jsstring \<Rightarrow> jsstring" where
  "strip_dns_lines w configContent =
     join_with [0x0A]
       (filter (\<lambda>line. \<not> prefix (js ''dns'') (toLowerCase w (trim line))) (split_on 0x0A configContent))"

definition setupWireGuardConfig :: "env \<Rightarrow> trace \<Rightarrow> jsstring \<Rightarrow> jsstring \<Rightarrow> bool \<Rightarrow> unit result" where
  "setupWireGuardConfig w tr config iface stripDns =
     (let decoded = base64_utf8 w config;
          tr0 = (if stripDns then tr @ [Info (js ''Stripping DNS configuration to preserve system DNS...'')] else tr);
          configContent = (if stripDns then strip_dns_lines w decoded else decoded);
          template = path_join w (tmpdir w) (js ''wg-'')
      in case mkdtemp_oracle w tr0 template of
           Inl e \<Rightarrow> (Inl e, tr0 @ [Mkdtemp template])
         | Inr tmpDir \<Rightarrow>
             (let tr1 = tr0 @ [Mkdtemp template];
                  tmpConf = path_join w tmpDir (iface @ js ''.conf'')
              in case writeFile_oracle w tr1 tmpConf configContent of
                   Some e \<Rightarrow> (Inl e, tr1 @ [WriteFile tmpConf configContent])
                 | None \<Rightarrow>
                     (let tr2 = tr1 @ [WriteFile tmpConf configContent];
                          etcDir = js ''/etc/wireguard''
                      in case mkdirP_oracle w tr2 etcDir of
                           Some e \<Rightarrow> (Inl e, tr2 @ [MkdirP etcDir])
                         | None \<Rightarrow>
                             (let tr3 = tr2 @ [MkdirP etcDir];
                                  etcConf = path_join w etcDir (iface @ js ''.conf'')
                              in case exec_exec w tr3 (js ''sudo'') [js ''cp'', tmpConf, etcConf] False of
                                   (Inl e, tr4) \<Rightarrow> (Inl e, tr4)
                                 | (Inr _, tr4) \<Rightarrow>
                                     (case exec_exec w tr4 (js ''sudo'') [js ''chmod'', js ''600'', etcConf] False of
                                        (Inl e, tr5) \<Rightarrow> (Inl e, tr5)
                                      | (Inr _, tr5) \<Rightarrow> (Inr (), tr5))))))"

definition startWireGuardInterface :: "env \<Rightarrow> trace \<Rightarrow> jsstring \<Rightarrow> unit result" where
  "startWireGuardInterface w tr iface =
     (case exec_exec w (tr @ [Info (js ''Starting WireGuard interface '' @ apos @ iface @ apos @ js ''...'')])
             (js ''sudo'') [js ''wg-quick'', js ''up'', iface] False of
        (Inl e, tr') \<Rightarrow> (Inl e, tr')
      | (Inr _, tr') \<Rightarrow>
          (Inr (), tr' @ [Info (js ''WireGuard interface '' @ apos @ iface @ apos @ js '' is up.''),
                          Info (js ''Waiting for tunnel to stabilize...''),
                          Sleep 5000]))"

definition setupWireGuard :: "env \<Rightarrow> trace \<Rightarrow> jsstring \<Rightarrow> jsstring \<Rightarrow> bool \<Rightarrow> unit result" where
  "setupWireGuard w tr config iface stripDns =
     (case installWireGuard w tr of
        (Inl e, tr1) \<Rightarrow> (Inl e, tr1)
      | (Inr _, tr1) \<Rightarrow>
          (case setupWireGuardConfig w tr1 config iface stripDns of
             (Inl e, tr2) \<Rightarrow> (Inl e, tr2)
           | (Inr _, tr2) \<Rightarrow> startWireGuardInterface w tr2 iface))"

subsection \<open>Mode Controller\<close>

definition handleAddRouteMode :: "env \<Rightarrow> trace \<Rightarrow> jsstring list \<Rightarrow> jsstring list \<Rightarrow> jsstring \<Rightarrow> unit result" where
  "handleAddRouteMode w tr domains ips iface =
     (let tr0 = tr @ [Info (js ''WireGuard interface '' @ apos @ iface @ apos @ js '' already exists. Adding routes...'')]
      in if domains = [] \<and> ips = []
         then (Inr (), tr0 @ [Warning (js ''Interface exists but no domains or IPs specified. Nothing to do.'')])
         else case addRoutes w tr0 domains ips iface of
                (Inl e, tr1) \<Rightarrow> (Inl e, tr1)
              | (Inr allIPs, tr1) \<Rightarrow>
                  (case (if length allIPs > 0 then testConnectivity w tr1 allIPs else (Inr (), tr1)) of
                     (Inl e, tr2) \<Rightarrow> (Inl e, tr2)
                   | (Inr _, tr2) \<Rightarrow> (Inr (), tr2 @ [Info (js ''Route addition complete.'')])))"

definition handleSetupMode :: "env \<Rightarrow> trace \<Rightarrow> jsstring \<Rightarrow> jsstring list \<Rightarrow> jsstring list \<Rightarrow> jsstring \<Rightarrow> bool \<Rightarrow> unit result" where
  "handleSetupMode w tr config domains ips iface stripDns =
     (case setupWireGuard w (tr @ [Info (js ''Setting up WireGuard interface...'')]) config iface stripDns of
        (Inl e, tr0) \<Rightarrow> (Inl e, tr0)
      | (Inr _, tr0) \<Rightarrow>
          (case addRoutes w tr0 domains ips iface of
             (Inl e, tr1) \<Rightarrow> (Inl e, tr1)
           | (Inr allIPs, tr1) \<Rightarrow>
               (case (if length allIPs > 0 then testConnectivity w tr1 allIPs else (Inr (), tr1)) of
                  (Inl e, tr2) \<Rightarrow> (Inl e, tr2)
                | (Inr _, tr2) \<Rightarrow> (Inr (), tr2 @ [Info (js ''WireGuard setup complete.'')]))))"

text \<open>
  The inputs as \<open>run\<close> reads them: \<open>core.getInput("iface") || "wg0"\<close>,
  \<open>parseInputList(core.getInput("domains") || "")\<close>, the same for \<open>ips\<close>, and
  \<open>core.getInput("strip_dns") !== "false"\<close>. An input that is not required never throws.
\<close>

definition input_or_empty :: "env \<Rightarrow> jsstring \<Rightarrow> jsstring" where
  "input_or_empty w name = (case getInput w name False of Inl e \<Rightarrow> [] | Inr v \<Rightarrow> v)"

definition input_iface :: "env \<Rightarrow> jsstring" where
  "input_iface w = (if input_or_empty w (js ''iface'') = [] then js ''wg0'' else input_or_empty w (js ''iface''))"

definition input_domains :: "env \<Rightarrow> jsstring list" where
  "input_domains w = parseInputList (input_or_empty w (js ''domains''))"

definition input_ips :: "env \<Rightarrow> jsstring list" where
  "input_ips w = parseInputList (input_or_empty w (js ''ips''))"

definition input_stripDns :: "env \<Rightarrow> bool" where
  "input_stripDns w = (input_or_empty w (js ''strip_dns'') \<noteq> js ''false'')"

text \<open>The \<open>try\<close> block of \<open>run\<close>, after the platform check.\<close>

definition run_body :: "env \<Rightarrow> unit result" where
  "run_body w =
     (let iface = input_iface w;
          domains = input_domains w;
          ips = input_ips w;
          stripDns = input_stripDns w
      in case checkInterfaceExists w [] iface of
           (Inl e, tr) \<Rightarrow> (Inl e, tr)
         | (Inr interfaceExists, tr) \<Rightarrow>
             if interfaceExists then handleAddRouteMode w tr domains ips iface
             else (case getInput w (js ''config'') True of
                     Inl e \<Rightarrow> (Inl e, tr)
                   | Inr config \<Rightarrow> handleSetupMode w tr config domains ips iface stripDns))"

text \<open>
  \<^verbatim>\<open>try {
      if (process.platform !== "linux") {
          core.setFailed("This action currently supports only Linux runners.");
          return;
      }
      ...
  } catch (err: any) {
      core.setFailed(`WireGuard action failed: ${err?.message || err}`);
  }\<close>
  The result is the whole log of the invocation.
\<close>

definition run :: "env \<Rightarrow> trace" where
  "run w =
     (if platform w \<noteq> js ''linux''
      then [SetFailed (js ''This action currently supports only Linux runners.'')]
      else case run_body w of
             (Inl err, tr) \<Rightarrow>
               tr @ [SetFailed (js ''WireGuard action failed: '' @
                       (if err_message err \<noteq> [] then err_message err else err_toString err))]
           | (Inr _, tr) \<Rightarrow> tr)"

text \<open>The invocation's outcome: it failed when \<open>core.setFailed\<close> was called.\<close>

fun is_SetFailed :: "event \<Rightarrow> bool" where
  "is_SetFailed (SetFailed m) = True"
| "is_SetFailed _ = False"

definition failed :: "trace \<Rightarrow> bool" where
  "failed tr = (filter is_SetFailed tr \<noteq> [])"


section \<open>The resolver of the two other variants of the action\<close>



text \<open>
  The second variant (the one that reports the public address) warns on every error:
  \<^verbatim>\<open>try {
      const v4 = await dns.resolve4(domain);
      resolved.push(...v4);
  } catch (e: any) {
      core.warning(`IPv4 resolution failed for ${domain}: ${e.message}`);
  }\<close>
\<close>

definition resolve_family_part_001 :: "jsstring \<Rightarrow> jsstring list promise \<Rightarrow> jsstring \<Rightarrow> trace \<Rightarrow> (jsstring list \<times> trace) option" where
  "resolve_family_part_001 fam promise domain tr =
     (case await_promise promise of
        None \<Rightarrow> None
      | Some (Inr addresses) \<Rightarrow> Some (addresses, tr)
      | Some (Inl e) \<Rightarrow>
          Some ([], tr @ [Warning (fam @ js '' resolution failed for '' @ domain @ js '': '' @ err_message e)]))"

definition resolveDomainIPs_part_001 :: "env \<Rightarrow> trace \<Rightarrow> jsstring \<Rightarrow> jsstring list result option" where
  "resolveDomainIPs_part_001 w tr domain =
     (case resolve_family_part_001 (js ''IPv4'') (resolve4_oracle w tr domain) domain (tr @ [Resolve4 domain]) of
        None \<Rightarrow> None
      | Some (ips4, tr1) \<Rightarrow>
          (case resolve_family_part_001 (js ''IPv6'') (resolve6_oracle w tr1 domain) domain (tr1 @ [Resolve6 domain]) of
             None \<Rightarrow> None
           | Some (ips6, tr2) \<Rightarrow> Some (Inr (ips4 @ ips6), tr2)))"

section \<open>Vocabulary of the properties\<close>

text \<open>A route application: \<open>sudo ip [-6] route add ...\<close>.\<close>

fun is_route_add :: "event \<Rightarrow> bool" where
  "is_route_add (Exec tool args) =
     (tool = js ''sudo'' \<and>
      (take 3 args = [js ''ip'', js ''route'', js ''add''] \<or>
       take 4 args = [js ''ip'', js ''-6'', js ''route'', js ''add'']))"
| "is_route_add _ = False"

fun is_Warning :: "event \<Rightarrow> bool" where
  "is_Warning (Warning m) = True"
| "is_Warning _ = False"

fun is_Exec :: "event \<Rightarrow> bool" where
  "is_Exec (Exec tool args) = True"
| "is_Exec _ = False"

text \<open>The command line that applies a host route for an address, as the claims word it.\<close>

definition host_route_args :: "jsstring \<Rightarrow> jsstring \<Rightarrow> jsstring list" where
  "host_route_args ip iface =
     (if colon \<in> set ip
      then [js ''ip'', js ''-6'', js ''route'', js ''add'', ip @ js ''/128'', js ''dev'', iface]
      else [js ''ip'', js ''route'', js ''add'', ip @ js ''/32'', js ''dev'', iface])"

text \<open>The probe of one address: \<open>ping6\<close> for an address with a colon, \<open>ping\<close> otherwise.\<close>

definition ping_event :: "jsstring \<Rightarrow> event" where
  "ping_event ip =
     Exec (if colon \<in> set ip then js ''ping6'' else js ''ping'') [js ''-c'', js ''2'', js ''-W'', js ''3'', ip]"


definition no_record :: "js_error \<Rightarrow> bool" where
  "no_record e = (err_code e = Some ENOTFOUND \<or> err_code e = Some ENODATA)"

definition one_warning :: "event list \<Rightarrow> bool" where
  "one_warning ws = (case ws of [Warning m] \<Rightarrow> True | _ \<Rightarrow> False)"

text \<open>
  What one address family contributes, in the words of the specification: the addresses
  of a lookup that succeeded in time and no warning; nothing and no warning for a missing
  record; nothing and one warning for any other failure and for a timeout.
\<close>

definition family_result :: "jsstring list promise \<Rightarrow> jsstring list \<Rightarrow> event list \<Rightarrow> bool" where
  "family_result p ips ws =
     (case p of
        Never \<Rightarrow> ips = [] \<and> one_warning ws
      | Settles t r \<Rightarrow>
          if 5000 \<le> t then ips = [] \<and> one_warning ws
          else (case r of
                  Inr addresses \<Rightarrow> ips = addresses \<and> ws = []
                | Inl e \<Rightarrow> ips = [] \<and> (if no_record e then ws = [] else one_warning ws)))"

text \<open>The same for a lookup awaited with no timer, in a variant that warns on every error.\<close>

definition family_result_unbounded_warn_all :: "js_error + jsstring list \<Rightarrow> jsstring list \<Rightarrow> event list \<Rightarrow> bool" where
  "family_result_unbounded_warn_all r ips ws =
     (case r of
        Inr addresses \<Rightarrow> ips = addresses \<and> ws = []
      | Inl e \<Rightarrow> ips = [] \<and> one_warning ws)"

text \<open>The route application of an address as an event.\<close>

definition host_route :: "jsstring \<Rightarrow> jsstring \<Rightarrow> event" where
  "host_route iface ip = Exec (js ''sudo'') (host_route_args ip iface)"

text \<open>
  An event is a host route on the tunnel interface when it is the route application of
  some address. The events that a route batch, the bring-up and the prober may produce
  are quiet: never the failure signal, and no route application other than a host route.
\<close>

definition host_route_event :: "jsstring \<Rightarrow> event \<Rightarrow> bool" where
  "host_route_event iface e = (\<exists>ip. e = Exec (js ''sudo'') (host_route_args ip iface))"

definition quiet :: "jsstring \<Rightarrow> event \<Rightarrow> bool" where
  "quiet iface e = (\<not> is_SetFailed e \<and> (is_route_add e \<longrightarrow> host_route_event iface e))"

text \<open>
  An address was applied in a log: at some point of it \<open>addSingleRoute\<close> ran for the
  address and did not throw.
\<close>

definition applied :: "env \<Rightarrow> jsstring \<Rightarrow> trace \<Rightarrow> jsstring \<Rightarrow> bool" where
  "applied w iface final ip = (\<exists>tr0. fst (addSingleRoute w tr0 ip iface) = Inr () \<and>
      prefix (tr0 @ [Exec (js ''sudo'') (host_route_args ip iface)]) final)"

text \<open>A resolution result of a domain, at some point of an invocation.\<close>

definition resolves_to :: "env \<Rightarrow> jsstring \<Rightarrow> jsstring list \<Rightarrow> bool" where
  "resolves_to w d rs = (\<exists>tr'. fst (resolveDomainIPs w tr' d) = Inr rs)"

text \<open>The interface query as an event.\<close>

definition link_show :: "jsstring \<Rightarrow> event" where
  "link_show iface = Exec (js ''ip'') [js ''link'', js ''show'', iface]"

text \<open>
  What decides the outcome of an invocation on Linux: the interface query throws, or the
  interface is absent and the configuration is missing or the bring-up throws.
\<close>

definition fatal_cause :: "env \<Rightarrow> bool" where
  "fatal_cause w =
     (case checkInterfaceExists w [] (input_iface w) of
        (Inl e, tr) \<Rightarrow> True
      | (Inr interfaceExists, tr) \<Rightarrow>
          \<not> interfaceExists \<and>
          (case getInput w (js ''config'') True of
             Inl e \<Rightarrow> True
           | Inr config \<Rightarrow>
               isl (fst (setupWireGuard w (tr @ [Info (js ''Setting up WireGuard interface...'')])
                          config (input_iface w) (input_stripDns w)))))"

text \<open>
  Two hosts differ in the probes only: they answer every command but \<open>ping\<close> and
  \<open>ping6\<close> alike, and agree on everything else.
\<close>

definition same_but_ping :: "env \<Rightarrow> env \<Rightarrow> bool" where
  "same_but_ping w w' =
     (\<exists>f. w' = w\<lparr>exec_oracle := f\<rparr> \<and>
        (\<forall>tr tool args. tool = js ''ping'' \<or> tool = js ''ping6'' \<or> f tr tool args = exec_oracle w tr tool args))"

text \<open>
  One step of a domain batch is an address together with the log at the moment
  \<open>addSingleRoute\<close> is called for it. The steps kept are those whose application did not
  throw there.
\<close>

definition kept :: "env \<Rightarrow> jsstring \<Rightarrow> (jsstring \<times> trace) list \<Rightarrow> jsstring list" where
  "kept w iface steps =
     map fst (filter (\<lambda>s. fst (addSingleRoute w (snd s) (fst s) iface) = Inr ()) steps)"

text \<open>
  A step is logged in a log: the log goes on, from the moment of the step, with the route
  application of the address and, when the application threw, with the warning that
  carries the message of the error.
\<close>

definition step_logged :: "env \<Rightarrow> jsstring \<Rightarrow> trace \<Rightarrow> jsstring \<times> trace \<Rightarrow> bool" where
  "step_logged w iface final s =
     (case fst (addSingleRoute w (snd s) (fst s) iface) of
        Inr u \<Rightarrow> prefix (snd s @ [host_route iface (fst s)]) final
      | Inl err \<Rightarrow>
          prefix (snd s @ [host_route iface (fst s),
                           Warning (js ''Failed to add route for '' @ fst s @ js '': '' @ err_message err)]) final)"

text \<open>
  The addresses of the steps of a domain are its resolution result, computed at a moment
  of the log.
\<close>

definition resolved_in :: "env \<Rightarrow> trace \<Rightarrow> jsstring \<Rightarrow> (jsstring \<times> trace) list \<Rightarrow> bool" where
  "resolved_in w final d steps =
     (\<exists>t. fst (resolveDomainIPs w t d) = Inr (map fst steps) \<and> prefix (snd (resolveDomainIPs w t d)) final)"

section \<open>Hosts for the concrete runs\<close>

text \<open>
  A Linux host given by its answers to commands, its answers to the two kinds of
  lookup and its raw inputs; tools are found in \<open>/usr/bin\<close> and file operations succeed.
\<close>

definition test_host :: "(trace \<Rightarrow> jsstring \<Rightarrow> jsstring list \<Rightarrow> nat \<times> proc) \<Rightarrow> (jsstring \<Rightarrow> jsstring list promise)
    \<Rightarrow> (jsstring \<Rightarrow> jsstring list promise) \<Rightarrow> (jsstring \<Rightarrow> jsstring) \<Rightarrow> env" where
  "test_host ex r4 r6 inp =
     \<lparr>platform = js ''linux'',
      input_raw = inp,
      which = (\<lambda>tool. js ''/usr/bin/'' @ tool),
      exec_oracle = ex,
      resolve4_oracle = (\<lambda>tr. r4),
      resolve6_oracle = (\<lambda>tr. r6),
      tmpdir = js ''/tmp'',
      path_join = (\<lambda>a b. a @ js ''/'' @ b),
      mkdtemp_oracle = (\<lambda>tr t. Inr (t @ js ''XXXXXX'')),
      writeFile_oracle = (\<lambda>tr p c. None),
      mkdirP_oracle = (\<lambda>tr p. None),
      base64_utf8 = (\<lambda>s. s),
      toLowerCase = (\<lambda>s. s)\<rparr>"

text \<open>Every command exits with the given code at once.\<close>

definition always_exit :: "nat \<Rightarrow> trace \<Rightarrow> jsstring \<Rightarrow> jsstring list \<Rightarrow> nat \<times> proc" where
  "always_exit c tr tool args = (0, Exited c)"

text \<open>
  The interface exists and every route application is refused with exit code 2; a probe
  answers after 20 ms.
\<close>

definition routes_refused :: "trace \<Rightarrow> jsstring \<Rightarrow> jsstring list \<Rightarrow> nat \<times> proc" where
  "routes_refused tr tool args = (if tool = js ''sudo'' then (5, Exited 2) else (20, Exited 0))"

text \<open>As \<open>always_exit 0\<close>, but a probe takes 20 seconds and fails.\<close>

definition probes_hang :: "trace \<Rightarrow> jsstring \<Rightarrow> jsstring list \<Rightarrow> nat \<times> proc" where
  "probes_hang tr tool args =
     (if tool = js ''ping'' \<or> tool = js ''ping6'' then (20000, Exited 1) else (0, Exited 0))"


definition no_inputs :: "jsstring \<Rightarrow> jsstring" where
  "no_inputs name = []"

definition only_ips :: "jsstring \<Rightarrow> jsstring \<Rightarrow> jsstring" where
  "only_ips v name = (if name = js ''ips'' then v else [])"

definition never :: "jsstring \<Rightarrow> jsstring list promise" where
  "never domain = Never"

definition not_found :: "jsstring \<Rightarrow> jsstring list promise" where
  "not_found domain = Settles 10 (Inl (JsError (js ''Error'') (Some ENOTFOUND) (js ''queryA ENOTFOUND '' @ domain)))"

definition found_after :: "nat \<Rightarrow> jsstring list \<Rightarrow> jsstring \<Rightarrow> jsstring list promise" where
  "found_after t addresses domain = Settles t (Inr addresses)"

text \<open>The raw inputs \<open>domains\<close> and \<open>ips\<close>, and nothing else.\<close>

definition domains_and_ips :: "jsstring \<Rightarrow> jsstring \<Rightarrow> jsstring \<Rightarrow> jsstring" where
  "domains_and_ips doms ips name = (if name = js ''domains'' then doms else if name = js ''ips'' then ips else [])"

section \<open>Properties of the Input Normalizer\<close>

lemma split_on_not_Nil: "split_on c s \<noteq> []"
  by (induction s) (auto split: list.splits)

lemma split_on_no_sep: "c \<notin> set t \<Longrightarrow> split_on c t = [t]"
  by (induction t) auto

lemma split_on_append_sep: "c \<notin> set t \<Longrightarrow> split_on c (t @ c # r) = t # split_on c r"
  by (induction t) auto

lemma split_on_join:
  "ts \<noteq> [] \<Longrightarrow> \<forall>t\<in>set ts. c \<notin> set t \<Longrightarrow> split_on c (join_with [c] ts) = ts"
proof (induction "[c]" ts rule: join_with.induct)
  case 1
  then show ?case by simp
next
  case (2 t)
  then show ?case by (simp add: split_on_no_sep)
next
  case (3 t u ts)
  then show ?case by (simp add: split_on_append_sep)
qed

lemma join_split_on: "join_with [c] (split_on c s) = s"
proof (induction s)
  case Nil
  then show ?case by simp
next
  case (Cons x xs)
  show ?case
  proof (cases "split_on c xs")
    case Nil
    then show ?thesis using split_on_not_Nil by blast
  next
    case (Cons t ts)
    then show ?thesis using Cons.IH by (cases ts) auto
  qed
qed

lemma split_on_sep_free: "t \<in> set (split_on c s) \<Longrightarrow> c \<notin> set t"
  by (induction s arbitrary: t) (auto split: if_splits list.splits)

lemma trim_decompose:
  "\<exists>pre post. s = pre @ trim s @ post \<and> (\<forall>c\<in>set pre. is_ws c) \<and> (\<forall>c\<in>set post. is_ws c)"
proof -
  let ?a = "takeWhile is_ws s" and ?b = "dropWhile is_ws s"
  let ?p = "takeWhile is_ws (rev ?b)"
  have 1: "s = ?a @ ?b" by simp
  have 2: "rev ?b = ?p @ dropWhile is_ws (rev ?b)" by simp
  have "?b = rev (dropWhile is_ws (rev ?b)) @ rev ?p"
    using arg_cong [OF 2, of rev] by (simp del: takeWhile_dropWhile_id)
  then have "s = ?a @ trim s @ rev ?p"
    unfolding trim_def using 1 by (metis)
  moreover have "\<forall>c\<in>set ?a. is_ws c" by (auto dest: set_takeWhileD)
  moreover have "\<forall>c\<in>set (rev ?p). is_ws c" by (auto dest: set_takeWhileD)
  ultimately show ?thesis by blast
qed

lemma trim_ends:
  "trim s \<noteq> [] \<Longrightarrow> \<not> is_ws (hd (trim s)) \<and> \<not> is_ws (last (trim s))"
proof -
  assume ne: "trim s \<noteq> []"
  let ?b = "dropWhile is_ws s"
  let ?r = "dropWhile is_ws (rev ?b)"
  have r: "?r \<noteq> []" using ne by (simp add: trim_def)
  then have "\<not> is_ws (hd ?r)" by (rule hd_dropWhile)
  then have l: "\<not> is_ws (last (trim s))" using r by (simp add: trim_def last_rev)
  have b: "?b \<noteq> []" using r by (cases "?b") simp_all
  then have hb: "\<not> is_ws (hd ?b)" by (rule hd_dropWhile)
  have "rev ?b = takeWhile is_ws (rev ?b) @ ?r" by simp
  then have "?b = rev ?r @ rev (takeWhile is_ws (rev ?b))"
    by (metis rev_append rev_rev_ident)
  then have "hd ?b = hd (rev ?r)" using r by (metis hd_append2 rev_is_Nil_conv)
  then show ?thesis using hb l by (simp add: trim_def)
qed


lemma trim_Nil: "trim [] = []"
  by (simp add: trim_def)

lemma dropWhile_hd_id: "xs \<noteq> [] \<Longrightarrow> \<not> P (hd xs) \<Longrightarrow> dropWhile P xs = xs"
  by (cases xs) simp_all

lemma trim_idem: "trim (trim s) = trim s"
proof (cases "trim s = []")
  case True
  then show ?thesis by (simp add: trim_Nil)
next
  case False
  from trim_ends [OF False] have h: "\<not> is_ws (hd (trim s))" and l: "\<not> is_ws (last (trim s))" by simp_all
  have 1: "dropWhile is_ws (trim s) = trim s" using False h by (rule dropWhile_hd_id)
  have r: "rev (trim s) \<noteq> []" using False by simp
  have "hd (rev (trim s)) = last (trim s)" using False by (simp add: hd_rev)
  then have "\<not> is_ws (hd (rev (trim s)))" using l by simp
  with r have 2: "dropWhile is_ws (rev (trim s)) = rev (trim s)" by (rule dropWhile_hd_id)
  show ?thesis unfolding trim_def [of "trim s"] 1 2 by simp
qed

lemma parseInputList_join:
  assumes "\<forall>t\<in>set ts. comma \<notin> set t"
  shows "parseInputList (join_with [comma] ts) = filter (\<lambda>t. t \<noteq> []) (map trim ts)"
proof (cases "ts = []")
  case True
  then show ?thesis by (simp add: parseInputList_def trim_Nil)
next
  case False
  then show ?thesis using assms by (simp add: parseInputList_def split_on_join)
qed

lemma input_is_join:
  "\<exists>ts. (\<forall>t\<in>set ts. comma \<notin> set t) \<and> input = join_with [comma] ts"
proof -
  have "\<forall>t\<in>set (split_on comma input). comma \<notin> set t" by (auto dest: split_on_sep_free)
  moreover have "input = join_with [comma] (split_on comma input)" by (simp add: join_split_on)
  ultimately show ?thesis by blast
qed

lemma count_list_filter_nonempty:
  "count_list (filter (\<lambda>t. t \<noteq> []) xs) u = (if u = [] then 0 else count_list xs u)"
proof (induction xs)
  case Nil
  then show ?case by simp
next
  case (Cons x xs)
  then show ?case by (cases "x = []") simp_all
qed


text \<open>
  Claim C8. For every raw input string, \<open>parseInputList\<close> returns the comma-separated
  tokens with surrounding whitespace trimmed, empty tokens removed, and the input order
  and the duplicates kept; the empty string gives the empty sequence. Every input is the
  comma-join of comma-free tokens \<open>ts\<close>, and for every such \<open>ts\<close> the result is the
  trimmed tokens that are not empty, in order. Trimming a token removes a prefix and a
  suffix of whitespace and leaves no whitespace at either end.
\<close>

theorem parseInputList_tokens:
  "parseInputList [] = [] \<and>
   (\<exists>ts. (\<forall>t\<in>set ts. comma \<notin> set t) \<and> input = join_with [comma] ts) \<and>
   ((\<forall>t\<in>set ts. comma \<notin> set t) \<longrightarrow>
      parseInputList (join_with [comma] ts) = filter (\<lambda>t. t \<noteq> []) (map trim ts)) \<and>
   (\<exists>pre post. t = pre @ trim t @ post \<and> (\<forall>c\<in>set pre. is_ws c) \<and> (\<forall>c\<in>set post. is_ws c)) \<and>
   (trim t \<noteq> [] \<longrightarrow> \<not> is_ws (hd (trim t)) \<and> \<not> is_ws (last (trim t)))"
proof -
  have "parseInputList [] = []" by (simp add: parseInputList_def trim_Nil)
  then show ?thesis
    using input_is_join [of input] parseInputList_join [of ts] trim_decompose [of t] trim_ends [of t]
    by blast
qed

text \<open>Claim C8 at the tokens \<open>" a"\<close>, \<open>""\<close>, \<open>"b "\<close>, \<open>"a"\<close>, and trimming at \<open>" a "\<close>.\<close>

theorem parseInputList_tokens_witness:
  "list_all (\<lambda>t. comma \<notin> set t) [js '' a'', [], js ''b '', js ''a''] \<and>
   parseInputList (join_with [comma] [js '' a'', [], js ''b '', js ''a'']) = [js ''a'', js ''b'', js ''a''] \<and>
   trim (js '' a '') \<noteq> [] \<and> \<not> is_ws (hd (trim (js '' a ''))) \<and> \<not> is_ws (last (trim (js '' a '')))"
proof -
  note T = parseInputList_tokens [of "[]" "[js '' a'', [], js ''b '', js ''a'']" "js '' a ''"]
  have h: "\<forall>t\<in>set [js '' a'', [], js ''b '', js ''a'']. comma \<notin> set t"
    by (simp add: js_def comma_def)
  have n: "trim (js '' a '') \<noteq> []"
    by (simp add: js_def trim_def is_ws_def)
  have "parseInputList (join_with [comma] [js '' a'', [], js ''b '', js ''a''])
      = filter (\<lambda>t. t \<noteq> []) (map trim [js '' a'', [], js ''b '', js ''a''])"
    using T [THEN conjunct2, THEN conjunct2, THEN conjunct1] h by (rule mp)
  also have "\<dots> = [js ''a'', js ''b'', js ''a'']"
    by (simp add: js_def trim_def is_ws_def)
  finally have p: "parseInputList (join_with [comma] [js '' a'', [], js ''b '', js ''a'']) = [js ''a'', js ''b'', js ''a'']" .
  have e: "\<not> is_ws (hd (trim (js '' a ''))) \<and> \<not> is_ws (last (trim (js '' a '')))"
    using T [THEN conjunct2, THEN conjunct2, THEN conjunct2, THEN conjunct2] n by (rule mp)
  have "list_all (\<lambda>t. comma \<notin> set t) [js '' a'', [], js ''b '', js ''a'']"
    using h by (simp only: list_all_iff)
  then show ?thesis using p n e by blast
qed

text \<open>
  Claim C9, as amended. \<open>parseInputList\<close> does not remove duplicates: a token that is
  not empty occurs in the result as many times as it occurs among the trimmed tokens of
  the input, and every token of the result is non-empty and trimmed.
\<close>

theorem parseInputList_keeps_duplicates:
  "(\<forall>t\<in>set ts. comma \<notin> set t) \<longrightarrow>
     count_list (parseInputList (join_with [comma] ts)) u = (if u = [] then 0 else count_list (map trim ts) u) \<and>
     (\<forall>v\<in>set (parseInputList (join_with [comma] ts)). v \<noteq> [] \<and> trim v = v)"
proof
  assume a: "\<forall>t\<in>set ts. comma \<notin> set t"
  have p: "parseInputList (join_with [comma] ts) = filter (\<lambda>t. t \<noteq> []) (map trim ts)"
    using a by (rule parseInputList_join)
  have 1: "count_list (parseInputList (join_with [comma] ts)) u = (if u = [] then 0 else count_list (map trim ts) u)"
    unfolding p by (rule count_list_filter_nonempty)
  have 2: "\<forall>v\<in>set (parseInputList (join_with [comma] ts)). v \<noteq> [] \<and> trim v = v"
    unfolding p by (auto simp: trim_idem)
  from 1 2 show "count_list (parseInputList (join_with [comma] ts)) u = (if u = [] then 0 else count_list (map trim ts) u) \<and>
     (\<forall>v\<in>set (parseInputList (join_with [comma] ts)). v \<noteq> [] \<and> trim v = v)" ..
qed

text \<open>Claim C9 as stated fails: the input \<open>"a,a"\<close> gives the token \<open>a\<close> twice.\<close>

theorem parseInputList_not_distinct_counterexample:
  "\<not> distinct (parseInputList (js ''a,a''))"
  by (simp add: parseInputList_def js_def trim_def is_ws_def comma_def)

text \<open>The amended claim C9 at the tokens \<open>"a"\<close> and \<open>" a "\<close>.\<close>

theorem parseInputList_keeps_duplicates_witness:
  "list_all (\<lambda>t. comma \<notin> set t) [js ''a'', js '' a ''] \<and>
   count_list (parseInputList (join_with [comma] [js ''a'', js '' a ''])) (js ''a'') = 2"
proof -
  have h: "\<forall>t\<in>set [js ''a'', js '' a '']. comma \<notin> set t"
    by (simp add: js_def comma_def)
  have "count_list (parseInputList (join_with [comma] [js ''a'', js '' a ''])) (js ''a'')
      = (if js ''a'' = [] then 0 else count_list (map trim [js ''a'', js '' a '']) (js ''a''))"
    using parseInputList_keeps_duplicates [of "[js ''a'', js '' a '']" "js ''a''"] h by blast
  also have "\<dots> = 2"
    by (simp add: js_def trim_def is_ws_def)
  finally have c: "count_list (parseInputList (join_with [comma] [js ''a'', js '' a ''])) (js ''a'') = 2" .
  have "list_all (\<lambda>t. comma \<notin> set t) [js ''a'', js '' a '']"
    using h by (simp only: list_all_iff)
  then show ?thesis using c by blast
qed


section \<open>Properties of the route batches\<close>

lemma addSingleRoute_trace:
  "snd (addSingleRoute w tr ip iface) = tr @ [Exec (js ''sudo'') (host_route_args ip iface)]"
  by (simp add: addSingleRoute_def host_route_args_def exec_exec_def Let_def split: sum.splits)

lemma quiet_simps:
  "quiet iface (Info m)" "quiet iface (Warning m)" "quiet iface (Resolve4 d)" "quiet iface (Resolve6 d)"
  "quiet iface (Mkdtemp a)" "quiet iface (WriteFile a b)" "quiet iface (MkdirP a)" "quiet iface (Sleep n)"
  "quiet iface (Exec (js ''sudo'') (host_route_args ip iface))"
  "quiet iface (Exec (js ''ip'') args)" "quiet iface (Exec (js ''ping'') args)" "quiet iface (Exec (js ''ping6'') args)"
  "quiet iface (Exec (js ''sudo'') (js ''cp'' # args))"
  "quiet iface (Exec (js ''sudo'') (js ''chmod'' # args))"
  "quiet iface (Exec (js ''sudo'') (js ''apt-get'' # args))"
  "quiet iface (Exec (js ''sudo'') (js ''wg-quick'' # args))"
  by (auto simp: quiet_def host_route_event_def js_def)

lemma not_failed_quiet: "list_all (quiet iface) evs \<Longrightarrow> \<not> failed evs"
  by (induction evs) (auto simp: failed_def quiet_def)


lemma addSingleRoute_ext:
  "\<exists>r. addSingleRoute w tr ip iface = (r, tr @ [Exec (js ''sudo'') (host_route_args ip iface)])"
  using addSingleRoute_trace [of w tr ip iface] by (cases "addSingleRoute w tr ip iface") simp

lemma resolve_family_ext:
  "\<exists>ips ws. resolve_family fam p d tr = (ips, tr @ ws) \<and> family_result p ips ws"
  by (cases p) (auto simp: resolve_family_def resolveWithTimeout_def family_result_def one_warning_def
      no_record_def split: sum.splits)

lemma one_warning_quiet: "one_warning ws \<Longrightarrow> list_all (quiet iface) ws"
  by (auto simp: one_warning_def quiet_simps split: list.splits event.splits)

lemma family_result_quiet: "family_result p ips ws \<Longrightarrow> list_all (quiet iface) ws"
  by (cases p) (auto simp: family_result_def one_warning_quiet split: if_splits sum.splits)

lemma resolveDomainIPs_ext:
  "\<exists>ips4 ws4 ips6 ws6.
     resolveDomainIPs w tr d = (Inr (ips4 @ ips6), tr @ [Resolve4 d] @ ws4 @ [Resolve6 d] @ ws6) \<and>
     family_result (resolve4_oracle w tr d) ips4 ws4 \<and>
     family_result (resolve6_oracle w (tr @ [Resolve4 d] @ ws4) d) ips6 ws6"
proof -
  obtain ips4 ws4 where 4: "resolve_family (js ''IPv4'') (resolve4_oracle w tr d) d (tr @ [Resolve4 d]) = (ips4, (tr @ [Resolve4 d]) @ ws4)"
    and f4: "family_result (resolve4_oracle w tr d) ips4 ws4"
    using resolve_family_ext by blast
  obtain ips6 ws6 where 6: "resolve_family (js ''IPv6'') (resolve6_oracle w (tr @ [Resolve4 d] @ ws4) d) d ((tr @ [Resolve4 d] @ ws4) @ [Resolve6 d])
       = (ips6, ((tr @ [Resolve4 d] @ ws4) @ [Resolve6 d]) @ ws6)"
    and f6: "family_result (resolve6_oracle w (tr @ [Resolve4 d] @ ws4) d) ips6 ws6"
    using resolve_family_ext by blast
  have "resolveDomainIPs w tr d = (Inr (ips4 @ ips6), tr @ [Resolve4 d] @ ws4 @ [Resolve6 d] @ ws6)"
    using 4 6 by (simp add: resolveDomainIPs_def)
  with f4 f6 show ?thesis by blast
qed

lemma applied_mono: "applied w iface tr ip \<Longrightarrow> prefix tr tr' \<Longrightarrow> applied w iface tr' ip"
  unfolding applied_def by (meson prefix_order.trans)

lemma is_route_add_host_route: "is_route_add (host_route iface ip)"
  by (simp add: host_route_def host_route_args_def)

lemma addRoutesForDomains_ips_ext:
  "\<exists>evs part. addRoutesForDomains_ips w d iface ips tr rc all = (tr @ evs, rc + length part, all @ part) \<and>
      list_all (quiet iface) evs \<and> subseq part ips \<and> (\<forall>ip\<in>set part. applied w iface (tr @ evs) ip) \<and>
      filter is_route_add evs = map (host_route iface) ips"
proof (induction ips arbitrary: tr rc all)
  case Nil
  have "addRoutesForDomains_ips w d iface [] tr rc all = (tr @ [], rc + length ([]::jsstring list), all @ [])"
    by simp
  moreover have "list_all (quiet iface) []" by simp
  moreover have "subseq ([]::jsstring list) []" by simp
  moreover have "\<forall>ip\<in>set ([]::jsstring list). applied w iface (tr @ []) ip" by simp
  moreover have "filter is_route_add [] = map (host_route iface) []" by simp
  ultimately show ?case by blast
next
  case (Cons ip ips)
  let ?i = "Info (js ''Adding route for '' @ d @ js '' ('' @ ip @ js '') via '' @ iface)"
  let ?x = "Exec (js ''sudo'') (host_route_args ip iface)"
  obtain r where a: "addSingleRoute w (tr @ [?i]) ip iface = (r, (tr @ [?i]) @ [?x])"
    using addSingleRoute_ext by blast
  have x: "is_route_add ?x" by (simp add: host_route_args_def)
  show ?case
  proof (cases r)
    case (Inr u)
    from Cons.IH [of "(tr @ [?i]) @ [?x]" "rc + 1" "all @ [ip]"] obtain evs part where
      l: "addRoutesForDomains_ips w d iface ips ((tr @ [?i]) @ [?x]) (rc + 1) (all @ [ip])
           = (((tr @ [?i]) @ [?x]) @ evs, (rc + 1) + length part, (all @ [ip]) @ part)"
      and q: "list_all (quiet iface) evs" and s: "subseq part ips"
      and ap: "\<forall>ip\<in>set part. applied w iface (((tr @ [?i]) @ [?x]) @ evs) ip"
      and f: "filter is_route_add evs = map (host_route iface) ips" by blast
    have 1: "addRoutesForDomains_ips w d iface (ip # ips) tr rc all
        = (tr @ (?i # ?x # evs), rc + length (ip # part), all @ (ip # part))"
      using a Inr l by simp
    have 2: "list_all (quiet iface) (?i # ?x # evs)" using q by (simp add: quiet_simps)
    have 3: "subseq (ip # part) (ip # ips)" using s by simp
    have "fst (addSingleRoute w (tr @ [?i]) ip iface) = Inr ()" using a Inr by simp
    then have "applied w iface (tr @ (?i # ?x # evs)) ip"
      unfolding applied_def by (intro exI [of _ "tr @ [?i]"]) simp
    then have 4: "\<forall>ip\<in>set (ip # part). applied w iface (tr @ (?i # ?x # evs)) ip" using ap by simp
    have 5: "filter is_route_add (?i # ?x # evs) = map (host_route iface) (ip # ips)"
      using f x by (simp add: host_route_def)
    show ?thesis using 1 2 3 4 5 by blast
  next
    case (Inl e)
    let ?w = "Warning (js ''Failed to add route for '' @ ip @ js '': '' @ err_message e)"
    from Cons.IH [of "((tr @ [?i]) @ [?x]) @ [?w]" rc all] obtain evs part where
      l: "addRoutesForDomains_ips w d iface ips (((tr @ [?i]) @ [?x]) @ [?w]) rc all
           = ((((tr @ [?i]) @ [?x]) @ [?w]) @ evs, rc + length part, all @ part)"
      and q: "list_all (quiet iface) evs" and s: "subseq part ips"
      and ap: "\<forall>ip\<in>set part. applied w iface ((((tr @ [?i]) @ [?x]) @ [?w]) @ evs) ip"
      and f: "filter is_route_add evs = map (host_route iface) ips" by blast
    have 1: "addRoutesForDomains_ips w d iface (ip # ips) tr rc all
        = (tr @ (?i # ?x # ?w # evs), rc + length part, all @ part)"
      using a Inl l by simp
    have 2: "list_all (quiet iface) (?i # ?x # ?w # evs)" using q by (simp add: quiet_simps)
    have 3: "subseq part (ip # ips)" using s by (rule list_emb_Cons)
    have 4: "\<forall>ip\<in>set part. applied w iface (tr @ (?i # ?x # ?w # evs)) ip" using ap by simp
    have 5: "filter is_route_add (?i # ?x # ?w # evs) = map (host_route iface) (ip # ips)"
      using f x by (simp add: host_route_def)
    show ?thesis using 1 2 3 4 5 by blast
  qed
qed

lemma addRoutesForIPs_loop_ext:
  "\<exists>evs k. addRoutesForIPs_loop w iface ips tr rc = (tr @ evs, rc + k) \<and>
      list_all (quiet iface) evs \<and>
      filter is_route_add evs = map (host_route iface) ips \<and>
      k + length (filter is_Warning evs) = length ips"
proof (induction ips arbitrary: tr rc)
  case Nil
  have "addRoutesForIPs_loop w iface [] tr rc = (tr @ [], rc + 0)" by simp
  moreover have "list_all (quiet iface) []" by simp
  moreover have "filter is_route_add [] = map (host_route iface) []" by simp
  moreover have "0 + length (filter is_Warning []) = length ([]::jsstring list)" by simp
  ultimately show ?case by blast
next
  case (Cons ip ips)
  let ?i = "Info (js ''Adding route for '' @ (if colon \<in> set ip then ip @ js ''/128'' else ip @ js ''/32'') @ js '' via '' @ iface)"
  let ?x = "host_route iface ip"
  obtain r where a: "addSingleRoute w (tr @ [?i]) ip iface = (r, (tr @ [?i]) @ [?x])"
    unfolding host_route_def using addSingleRoute_ext by blast
  have x: "is_route_add ?x" by (rule is_route_add_host_route)
  have qx: "quiet iface ?x" by (simp add: host_route_def quiet_simps)
  show ?case
  proof (cases r)
    case (Inr u)
    from Cons.IH [of "(tr @ [?i]) @ [?x]" "rc + 1"] obtain evs k where
      l: "addRoutesForIPs_loop w iface ips ((tr @ [?i]) @ [?x]) (rc + 1) = (((tr @ [?i]) @ [?x]) @ evs, (rc + 1) + k)"
      and q: "list_all (quiet iface) evs"
      and f: "filter is_route_add evs = map (host_route iface) ips"
      and c: "k + length (filter is_Warning evs) = length ips" by blast
    have 1: "addRoutesForIPs_loop w iface (ip # ips) tr rc = (tr @ (?i # ?x # evs), rc + (k + 1))"
      using a Inr l by (simp add: Let_def)
    have 2: "list_all (quiet iface) (?i # ?x # evs)" using q qx by (simp add: quiet_simps)
    have 3: "filter is_route_add (?i # ?x # evs) = map (host_route iface) (ip # ips)"
      using f x by simp
    have 4: "(k + 1) + length (filter is_Warning (?i # ?x # evs)) = length (ip # ips)"
      using c by (simp add: host_route_def)
    show ?thesis using 1 2 3 4 by blast
  next
    case (Inl e)
    let ?w = "Warning (js ''Failed to add route for '' @ ip @ js '': '' @ err_message e)"
    from Cons.IH [of "((tr @ [?i]) @ [?x]) @ [?w]" rc] obtain evs k where
      l: "addRoutesForIPs_loop w iface ips (((tr @ [?i]) @ [?x]) @ [?w]) rc = ((((tr @ [?i]) @ [?x]) @ [?w]) @ evs, rc + k)"
      and q: "list_all (quiet iface) evs"
      and f: "filter is_route_add evs = map (host_route iface) ips"
      and c: "k + length (filter is_Warning evs) = length ips" by blast
    have 1: "addRoutesForIPs_loop w iface (ip # ips) tr rc = (tr @ (?i # ?x # ?w # evs), rc + k)"
      using a Inl l by (simp add: Let_def)
    have 2: "list_all (quiet iface) (?i # ?x # ?w # evs)" using q qx by (simp add: quiet_simps)
    have 3: "filter is_route_add (?i # ?x # ?w # evs) = map (host_route iface) (ip # ips)"
      using f x by simp
    have 4: "k + length (filter is_Warning (?i # ?x # ?w # evs)) = length (ip # ips)"
      using c by (simp add: host_route_def)
    show ?thesis using 1 2 3 4 by blast
  qed
qed

lemma addRoutesForIPs_ext:
  "\<exists>evs k. addRoutesForIPs w tr ips iface =
       (Inr (), tr @ (if ips = [] then []
                      else Info (js ''Adding routes for '' @ show_nat (length ips) @ js '' IP address(es)...'') # evs @
                           [Info (js ''Added '' @ show_nat k @ js '' route(s) for IPs.'')])) \<and>
      list_all (quiet iface) evs \<and>
      filter is_route_add evs = map (host_route iface) ips \<and>
      k + length (filter is_Warning evs) = length ips"
proof (cases "ips = []")
  case True
  have "addRoutesForIPs w tr ips iface = (Inr (), tr @ (if ips = [] then [] else undefined))"
    using True by (simp add: addRoutesForIPs_def)
  moreover have "list_all (quiet iface) []" by simp
  moreover have "filter is_route_add [] = map (host_route iface) ips" using True by simp
  moreover have "0 + length (filter is_Warning []) = length ips" using True by simp
  ultimately show ?thesis using True by (intro exI [of _ "[]"] exI [of _ 0]) simp
next
  case False
  let ?i = "Info (js ''Adding routes for '' @ show_nat (length ips) @ js '' IP address(es)...'')"
  from addRoutesForIPs_loop_ext [of w iface ips "tr @ [?i]" 0] obtain evs k where
    l: "addRoutesForIPs_loop w iface ips (tr @ [?i]) 0 = ((tr @ [?i]) @ evs, 0 + k)"
    and q: "list_all (quiet iface) evs"
    and f: "filter is_route_add evs = map (host_route iface) ips"
    and c: "k + length (filter is_Warning evs) = length ips" by blast
  have "addRoutesForIPs w tr ips iface =
      (Inr (), tr @ (if ips = [] then [] else ?i # evs @ [Info (js ''Added '' @ show_nat k @ js '' route(s) for IPs.'')]))"
    using False l by (simp add: addRoutesForIPs_def)
  with q f c show ?thesis by blast
qed

lemma addRoutesForIPs_quiet:
  "\<exists>evs. addRoutesForIPs w tr ips iface = (Inr (), tr @ evs) \<and> list_all (quiet iface) evs"
proof -
  from addRoutesForIPs_ext [of w tr ips iface] obtain evs k where
    r: "addRoutesForIPs w tr ips iface =
       (Inr (), tr @ (if ips = [] then []
                      else Info (js ''Adding routes for '' @ show_nat (length ips) @ js '' IP address(es)...'') # evs @
                           [Info (js ''Added '' @ show_nat k @ js '' route(s) for IPs.'')]))"
    and q: "list_all (quiet iface) evs" by blast
  have "list_all (quiet iface) (if ips = [] then []
                      else Info (js ''Adding routes for '' @ show_nat (length ips) @ js '' IP address(es)...'') # evs @
                           [Info (js ''Added '' @ show_nat k @ js '' route(s) for IPs.'')])"
    using q by (simp add: quiet_simps)
  with r show ?thesis by blast
qed

lemma family_result_no_route: "family_result p ips ws \<Longrightarrow> filter is_route_add ws = []"
  by (cases p) (auto simp: family_result_def one_warning_def split: if_splits sum.splits list.splits event.splits)

lemma resolveDomainIPs_quiet:
  "\<exists>ips evs. resolveDomainIPs w tr d = (Inr ips, tr @ evs) \<and> list_all (quiet iface) evs \<and>
      filter is_route_add evs = []"
proof -
  from resolveDomainIPs_ext [of w tr d] obtain ips4 ws4 ips6 ws6 where
    r: "resolveDomainIPs w tr d = (Inr (ips4 @ ips6), tr @ [Resolve4 d] @ ws4 @ [Resolve6 d] @ ws6)"
    and f4: "family_result (resolve4_oracle w tr d) ips4 ws4"
    and f6: "family_result (resolve6_oracle w (tr @ [Resolve4 d] @ ws4) d) ips6 ws6" by blast
  have "list_all (quiet iface) ([Resolve4 d] @ ws4 @ [Resolve6 d] @ ws6)"
    using family_result_quiet [OF f4] family_result_quiet [OF f6] by (simp add: quiet_simps)
  moreover have "filter is_route_add ([Resolve4 d] @ ws4 @ [Resolve6 d] @ ws6) = []"
    using family_result_no_route [OF f4] family_result_no_route [OF f6] by simp
  ultimately show ?thesis using r by blast
qed

lemma addRoutesForDomains_loop_ext:
  "\<exists>evs rss parts. addRoutesForDomains_loop w iface ds tr rc all =
        (Inr (rc + length (concat parts), all @ concat parts), tr @ evs) \<and>
      list_all (quiet iface) evs \<and>
      list_all2 (resolves_to w) ds rss \<and>
      list_all2 subseq parts rss \<and>
      filter is_route_add evs = map (host_route iface) (concat rss) \<and>
      (\<forall>ip\<in>set (concat parts). applied w iface (tr @ evs) ip)"
proof (induction ds arbitrary: tr rc all)
  case Nil
  have "addRoutesForDomains_loop w iface [] tr rc all = (Inr (rc + length (concat ([]::jsstring list list)), all @ concat []), tr @ [])"
    by simp
  moreover have "list_all (quiet iface) []" by simp
  moreover have "list_all2 (resolves_to w) [] []" by simp
  moreover have "list_all2 subseq ([]::jsstring list list) []" by simp
  moreover have "filter is_route_add [] = map (host_route iface) (concat [])" by simp
  moreover have "\<forall>ip\<in>set (concat ([]::jsstring list list)). applied w iface (tr @ []) ip" by simp
  ultimately show ?case by blast
next
  case (Cons d ds)
  let ?i = "Info (js ''Resolving '' @ d @ js ''...'')"
  from resolveDomainIPs_quiet [of w "tr @ [?i]" d iface] obtain rs e1 where
    r: "resolveDomainIPs w (tr @ [?i]) d = (Inr rs, (tr @ [?i]) @ e1)" and q1: "list_all (quiet iface) e1"
    and n1: "filter is_route_add e1 = []" by blast
  from addRoutesForDomains_ips_ext [of w d iface rs "(tr @ [?i]) @ e1" rc all] obtain e2 part where
    i: "addRoutesForDomains_ips w d iface rs ((tr @ [?i]) @ e1) rc all = (((tr @ [?i]) @ e1) @ e2, rc + length part, all @ part)"
    and q2: "list_all (quiet iface) e2" and s: "subseq part rs"
    and ap: "\<forall>ip\<in>set part. applied w iface (((tr @ [?i]) @ e1) @ e2) ip"
    and f2: "filter is_route_add e2 = map (host_route iface) rs" by blast
  from Cons.IH [of "((tr @ [?i]) @ e1) @ e2" "rc + length part" "all @ part"] obtain e3 rss parts where
    l: "addRoutesForDomains_loop w iface ds (((tr @ [?i]) @ e1) @ e2) (rc + length part) (all @ part)
        = (Inr ((rc + length part) + length (concat parts), (all @ part) @ concat parts), (((tr @ [?i]) @ e1) @ e2) @ e3)"
    and q3: "list_all (quiet iface) e3"
    and fr: "list_all2 (resolves_to w) ds rss"
    and ss: "list_all2 subseq parts rss"
    and f3: "filter is_route_add e3 = map (host_route iface) (concat rss)"
    and ap3: "\<forall>ip\<in>set (concat parts). applied w iface ((((tr @ [?i]) @ e1) @ e2) @ e3) ip" by blast
  have 1: "addRoutesForDomains_loop w iface (d # ds) tr rc all
      = (Inr (rc + length (concat (part # parts)), all @ concat (part # parts)), tr @ (?i # e1 @ e2 @ e3))"
    using r i l by simp
  have 2: "list_all (quiet iface) (?i # e1 @ e2 @ e3)" using q1 q2 q3 by (simp add: quiet_simps)
  have "resolves_to w d rs" unfolding resolves_to_def using r
    by (intro exI [of _ "tr @ [?i]"]) simp
  then have 3: "list_all2 (resolves_to w) (d # ds) (rs # rss)" using fr by simp
  have 5: "list_all2 subseq (part # parts) (rs # rss)" using s ss by simp
  have 6: "filter is_route_add (?i # e1 @ e2 @ e3) = map (host_route iface) (concat (rs # rss))"
    using n1 f2 f3 by simp
  have "\<forall>ip\<in>set part. applied w iface (tr @ (?i # e1 @ e2 @ e3)) ip"
  proof
    fix ip assume "ip \<in> set part"
    then have "applied w iface (((tr @ [?i]) @ e1) @ e2) ip" using ap by blast
    moreover have "prefix (((tr @ [?i]) @ e1) @ e2) (tr @ (?i # e1 @ e2 @ e3))" by simp
    ultimately show "applied w iface (tr @ (?i # e1 @ e2 @ e3)) ip" by (rule applied_mono)
  qed
  moreover have "\<forall>ip\<in>set (concat parts). applied w iface (tr @ (?i # e1 @ e2 @ e3)) ip"
    using ap3 by simp
  ultimately have 4: "\<forall>ip\<in>set (concat (part # parts)). applied w iface (tr @ (?i # e1 @ e2 @ e3)) ip"
    by auto
  show ?case using 1 2 3 5 6 4 by blast
qed

lemma addRoutesForDomains_ext:
  "\<exists>evs rss parts. addRoutesForDomains w tr ds iface = (Inr (concat parts), tr @ evs) \<and>
      list_all (quiet iface) evs \<and>
      list_all2 (resolves_to w) ds rss \<and>
      list_all2 subseq parts rss \<and>
      filter is_route_add evs = map (host_route iface) (concat rss) \<and>
      (\<forall>ip\<in>set (concat parts). applied w iface (tr @ evs) ip) \<and>
      (ds = [] \<or> last evs = Info (js ''Added '' @ show_nat (length (concat parts)) @ js '' route(s) for domains.''))"
proof (cases "ds = []")
  case True
  have "addRoutesForDomains w tr ds iface = (Inr (concat []), tr @ [])"
    using True by (simp add: addRoutesForDomains_def)
  moreover have "list_all (quiet iface) []" by simp
  moreover have "list_all2 (resolves_to w) ds []" using True by simp
  moreover have "list_all2 subseq ([]::jsstring list list) []" by simp
  moreover have "filter is_route_add [] = map (host_route iface) (concat [])" by simp
  moreover have "\<forall>ip\<in>set (concat ([]::jsstring list list)). applied w iface (tr @ []) ip" by simp
  ultimately show ?thesis using True by blast
next
  case False
  let ?i = "Info (js ''Adding routes for '' @ show_nat (length ds) @ js '' domain(s)...'')"
  from addRoutesForDomains_loop_ext [of w iface ds "tr @ [?i]" 0 "[]"] obtain evs rss parts where
    l: "addRoutesForDomains_loop w iface ds (tr @ [?i]) 0 [] =
        (Inr (0 + length (concat parts), [] @ concat parts), (tr @ [?i]) @ evs)"
    and q: "list_all (quiet iface) evs"
    and r: "list_all2 (resolves_to w) ds rss"
    and s: "list_all2 subseq parts rss"
    and f: "filter is_route_add evs = map (host_route iface) (concat rss)"
    and ap: "\<forall>ip\<in>set (concat parts). applied w iface ((tr @ [?i]) @ evs) ip" by blast
  let ?o = "Info (js ''Added '' @ show_nat (length (concat parts)) @ js '' route(s) for domains.'')"
  let ?evs = "?i # evs @ [?o]"
  have 1: "addRoutesForDomains w tr ds iface = (Inr (concat parts), tr @ ?evs)"
    using False l by (simp add: addRoutesForDomains_def)
  have 2: "list_all (quiet iface) ?evs" using q by (simp add: quiet_simps)
  have 3: "filter is_route_add ?evs = map (host_route iface) (concat rss)" using f by simp
  have 4: "\<forall>ip\<in>set (concat parts). applied w iface (tr @ ?evs) ip"
  proof
    fix ip assume "ip \<in> set (concat parts)"
    then have "applied w iface ((tr @ [?i]) @ evs) ip" using ap by blast
    moreover have "prefix ((tr @ [?i]) @ evs) (tr @ ?evs)" by simp
    ultimately show "applied w iface (tr @ ?evs) ip" by (rule applied_mono)
  qed
  have 5: "last ?evs = ?o" by simp
  show ?thesis using 1 2 r s 3 4 5 by blast
qed

lemma addRoutes_ext:
  "\<exists>evs rss parts. addRoutes w tr ds ips iface = (Inr (concat parts @ ips), tr @ evs) \<and>
      list_all (quiet iface) evs \<and>
      list_all2 (resolves_to w) ds rss \<and>
      list_all2 subseq parts rss \<and>
      filter is_route_add evs = map (host_route iface) (concat rss @ ips) \<and>
      (\<forall>ip\<in>set (concat parts). applied w iface (tr @ evs) ip)"
proof -
  from addRoutesForDomains_ext [of w tr ds iface] obtain e1 rss parts where
    d: "addRoutesForDomains w tr ds iface = (Inr (concat parts), tr @ e1)"
    and q1: "list_all (quiet iface) e1"
    and r: "list_all2 (resolves_to w) ds rss"
    and s: "list_all2 subseq parts rss"
    and f1: "filter is_route_add e1 = map (host_route iface) (concat rss)"
    and ap: "\<forall>ip\<in>set (concat parts). applied w iface (tr @ e1) ip" by blast
  from addRoutesForIPs_ext [of w "tr @ e1" ips iface] obtain e2 k where
    i: "addRoutesForIPs w (tr @ e1) ips iface =
       (Inr (), (tr @ e1) @ (if ips = [] then []
                      else Info (js ''Adding routes for '' @ show_nat (length ips) @ js '' IP address(es)...'') # e2 @
                           [Info (js ''Added '' @ show_nat k @ js '' route(s) for IPs.'')]))"
    and q2: "list_all (quiet iface) e2"
    and f2: "filter is_route_add e2 = map (host_route iface) ips" by blast
  let ?e2 = "(if ips = [] then []
                      else Info (js ''Adding routes for '' @ show_nat (length ips) @ js '' IP address(es)...'') # e2 @
                           [Info (js ''Added '' @ show_nat k @ js '' route(s) for IPs.'')])"
  have 1: "addRoutes w tr ds ips iface = (Inr (concat parts @ ips), tr @ (e1 @ ?e2))"
    using d i by (simp add: addRoutes_def)
  have 2: "list_all (quiet iface) (e1 @ ?e2)" using q1 q2 by (simp add: quiet_simps)
  have 3: "filter is_route_add (e1 @ ?e2) = map (host_route iface) (concat rss @ ips)"
    using f1 f2 by simp
  have 4: "\<forall>ip\<in>set (concat parts). applied w iface (tr @ (e1 @ ?e2)) ip"
  proof
    fix ip assume "ip \<in> set (concat parts)"
    then have "applied w iface (tr @ e1) ip" using ap by blast
    moreover have "prefix (tr @ e1) (tr @ (e1 @ ?e2))" by simp
    ultimately show "applied w iface (tr @ (e1 @ ?e2)) ip" by (rule applied_mono)
  qed
  show ?thesis using 1 2 r s 3 4 by blast
qed

lemma ping_event_props: "quiet iface (ping_event ip)" "is_Exec (ping_event ip)"
  by (simp_all add: ping_event_def quiet_simps)

lemma testConnectivity_loop_ext:
  "\<exists>evs. testConnectivity_loop w ips tr = tr @ evs \<and> list_all (quiet iface) evs \<and>
      filter is_Exec evs = map ping_event ips"
proof (induction ips arbitrary: tr)
  case Nil
  have "testConnectivity_loop w [] tr = tr @ []" by simp
  moreover have "list_all (quiet iface) []" by simp
  moreover have "filter is_Exec [] = map ping_event []" by simp
  ultimately show ?case by blast
next
  case (Cons ip ips)
  let ?i = "Info (js ''Pinging '' @ ip @ js ''...'')"
  let ?cmd = "if colon \<in> set ip then js ''ping6'' else js ''ping''"
  let ?args = "[js ''-c'', js ''2'', js ''-W'', js ''3'', ip]"
  let ?r = "race_reject (exec_promise w (tr @ [?i]) ?cmd ?args True) 10000 (mk_error (js ''Ping timeout''))"
  have pe: "Exec ?cmd ?args = ping_event ip" by (simp add: ping_event_def)
  show ?case
  proof (cases ?r)
    case (Inr c)
    from Cons.IH [of "(tr @ [?i]) @ [ping_event ip]"] obtain evs where
      l: "testConnectivity_loop w ips ((tr @ [?i]) @ [ping_event ip]) = ((tr @ [?i]) @ [ping_event ip]) @ evs"
      and q: "list_all (quiet iface) evs" and f: "filter is_Exec evs = map ping_event ips" by blast
    have 1: "testConnectivity_loop w (ip # ips) tr = tr @ (?i # ping_event ip # evs)"
      using Inr l pe by (simp add: Let_def)
    have 2: "list_all (quiet iface) (?i # ping_event ip # evs)" using q by (simp add: quiet_simps ping_event_props)
    have 3: "filter is_Exec (?i # ping_event ip # evs) = map ping_event (ip # ips)"
      using f by (simp add: ping_event_props)
    show ?thesis using 1 2 3 by blast
  next
    case (Inl e)
    let ?w = "Warning (js ''Ping test for '' @ ip @ js '' failed or timed out: '' @ err_message e)"
    from Cons.IH [of "((tr @ [?i]) @ [ping_event ip]) @ [?w]"] obtain evs where
      l: "testConnectivity_loop w ips (((tr @ [?i]) @ [ping_event ip]) @ [?w]) = (((tr @ [?i]) @ [ping_event ip]) @ [?w]) @ evs"
      and q: "list_all (quiet iface) evs" and f: "filter is_Exec evs = map ping_event ips" by blast
    have 1: "testConnectivity_loop w (ip # ips) tr = tr @ (?i # ping_event ip # ?w # evs)"
      using Inl l pe by (simp add: Let_def)
    have 2: "list_all (quiet iface) (?i # ping_event ip # ?w # evs)" using q by (simp add: quiet_simps ping_event_props)
    have 3: "filter is_Exec (?i # ping_event ip # ?w # evs) = map ping_event (ip # ips)"
      using f by (simp add: ping_event_props)
    show ?thesis using 1 2 3 by blast
  qed
qed

lemma testConnectivity_ext:
  "\<exists>evs. testConnectivity w tr ips = (Inr (), tr @ evs) \<and> list_all (quiet iface) evs \<and>
      filter is_Exec evs = map ping_event (take 3 ips)"
proof (cases "ips = []")
  case True
  have "testConnectivity w tr ips = (Inr (), tr @ [])" using True by (simp add: testConnectivity_def)
  moreover have "list_all (quiet iface) []" by simp
  moreover have "filter is_Exec [] = map ping_event (take 3 ips)" using True by simp
  ultimately show ?thesis by blast
next
  case False
  let ?i = "Info (js ''Testing connectivity to routed IPs...'')"
  from testConnectivity_loop_ext [of w "take 3 ips" "tr @ [?i]" iface] obtain evs where
    l: "testConnectivity_loop w (take 3 ips) (tr @ [?i]) = (tr @ [?i]) @ evs"
    and q: "list_all (quiet iface) evs" and f: "filter is_Exec evs = map ping_event (take 3 ips)" by blast
  have "testConnectivity w tr ips = (Inr (), tr @ (?i # evs))" using False l by (simp add: testConnectivity_def)
  moreover have "list_all (quiet iface) (?i # evs)" using q by (simp add: quiet_simps)
  moreover have "filter is_Exec (?i # evs) = map ping_event (take 3 ips)" using f by simp
  ultimately show ?thesis by blast
qed


section \<open>Properties of the bring-up\<close>

lemma ext_intro:
  "take (length tr) tr' = tr \<Longrightarrow> P (drop (length tr) tr') \<Longrightarrow> \<exists>evs. tr' = tr @ evs \<and> P evs"
  by (metis append_take_drop_id)

lemma not_route_add_simps:
  "\<not> is_route_add (Exec (js ''ip'') args)"
  "\<not> is_route_add (Exec (js ''sudo'') (js ''cp'' # args))"
  "\<not> is_route_add (Exec (js ''sudo'') (js ''chmod'' # args))"
  "\<not> is_route_add (Exec (js ''sudo'') (js ''apt-get'' # args))"
  "\<not> is_route_add (Exec (js ''sudo'') (js ''wg-quick'' # args))"
  by (auto simp: js_def)

lemma installWireGuard_ext:
  "\<exists>evs. snd (installWireGuard w tr) = tr @ evs \<and> list_all (quiet iface) evs \<and> filter is_route_add evs = []"
  by (rule ext_intro)
     (auto simp: installWireGuard_def exec_exec_def quiet_simps not_route_add_simps simp del: is_route_add.simps(1) split: sum.splits)

lemma setupWireGuardConfig_ext:
  "\<exists>evs. snd (setupWireGuardConfig w tr config iface sd) = tr @ evs \<and> list_all (quiet iface) evs \<and> filter is_route_add evs = []"
proof -
  define tr0 where "tr0 = (if sd then tr @ [Info (js ''Stripping DNS configuration to preserve system DNS...'')] else tr)"
  define content where "content = (if sd then strip_dns_lines w (base64_utf8 w config) else base64_utf8 w config)"
  define template where "template = path_join w (tmpdir w) (js ''wg-'')"
  obtain e0 where e0: "tr0 = tr @ e0" and q0: "list_all (quiet iface) e0" and n0: "filter is_route_add e0 = []"
    unfolding tr0_def by (cases sd) (simp_all add: quiet_simps)
  have "take (length tr0) (snd (setupWireGuardConfig w tr config iface sd)) = tr0 \<and>
        list_all (quiet iface) (drop (length tr0) (snd (setupWireGuardConfig w tr config iface sd))) \<and>
        filter is_route_add (drop (length tr0) (snd (setupWireGuardConfig w tr config iface sd))) = []"
    unfolding setupWireGuardConfig_def Let_def
    apply (fold tr0_def content_def template_def)
    apply (simp add: exec_exec_def quiet_simps not_route_add_simps del: is_route_add.simps(1) split: sum.splits option.splits)
    done
  then obtain e1 where e1: "snd (setupWireGuardConfig w tr config iface sd) = tr0 @ e1"
    and q1: "list_all (quiet iface) e1" and n1: "filter is_route_add e1 = []"
    by (metis append_take_drop_id)
  have "snd (setupWireGuardConfig w tr config iface sd) = tr @ (e0 @ e1)" using e0 e1 by simp
  moreover have "list_all (quiet iface) (e0 @ e1)" using q0 q1 by simp
  moreover have "filter is_route_add (e0 @ e1) = []" using n0 n1 by simp
  ultimately show ?thesis by blast
qed

lemma startWireGuardInterface_ext:
  "\<exists>evs. snd (startWireGuardInterface w tr iface) = tr @ evs \<and> list_all (quiet iface) evs \<and> filter is_route_add evs = []"
  by (rule ext_intro)
     (auto simp: startWireGuardInterface_def exec_exec_def quiet_simps not_route_add_simps simp del: is_route_add.simps(1) split: sum.splits)

lemma setupWireGuard_ext:
  "\<exists>evs. snd (setupWireGuard w tr config iface sd) = tr @ evs \<and> list_all (quiet iface) evs \<and> filter is_route_add evs = []"
proof -
  obtain r1 e1 where 1: "installWireGuard w tr = (r1, tr @ e1)" and q1: "list_all (quiet iface) e1" and n1: "filter is_route_add e1 = []"
    using installWireGuard_ext [of w tr iface] by (cases "installWireGuard w tr") auto
  obtain r2 e2 where 2: "setupWireGuardConfig w (tr @ e1) config iface sd = (r2, (tr @ e1) @ e2)"
    and q2: "list_all (quiet iface) e2" and n2: "filter is_route_add e2 = []"
    using setupWireGuardConfig_ext [of w "tr @ e1" config iface sd] by (cases "setupWireGuardConfig w (tr @ e1) config iface sd") auto
  obtain r3 e3 where 3: "startWireGuardInterface w ((tr @ e1) @ e2) iface = (r3, ((tr @ e1) @ e2) @ e3)"
    and q3: "list_all (quiet iface) e3" and n3: "filter is_route_add e3 = []"
    using startWireGuardInterface_ext [of w "(tr @ e1) @ e2" iface] by (cases "startWireGuardInterface w ((tr @ e1) @ e2) iface") auto
  show ?thesis
  proof (cases r1)
    case (Inl e)
    then have "snd (setupWireGuard w tr config iface sd) = tr @ e1" using 1 by (simp add: setupWireGuard_def)
    with q1 n1 show ?thesis by blast
  next
    case a: (Inr u)
    show ?thesis
    proof (cases r2)
      case (Inl e)
      then have "snd (setupWireGuard w tr config iface sd) = tr @ (e1 @ e2)" using 1 2 a by (simp add: setupWireGuard_def)
      moreover have "list_all (quiet iface) (e1 @ e2)" using q1 q2 by simp
      moreover have "filter is_route_add (e1 @ e2) = []" using n1 n2 by simp
      ultimately show ?thesis by blast
    next
      case (Inr v)
      then have "snd (setupWireGuard w tr config iface sd) = tr @ (e1 @ e2 @ e3)" using 1 2 3 a by (simp add: setupWireGuard_def)
      moreover have "list_all (quiet iface) (e1 @ e2 @ e3)" using q1 q2 q3 by simp
      moreover have "filter is_route_add (e1 @ e2 @ e3) = []" using n1 n2 n3 by simp
      ultimately show ?thesis by blast
    qed
  qed
qed


section \<open>Properties of the Mode Controller\<close>

lemma probe_ext:
  "\<exists>evs. (if length allIPs > 0 then testConnectivity w tr allIPs else (Inr (), tr)) = (Inr (), tr @ evs) \<and>
      list_all (quiet iface) evs \<and> filter is_route_add evs = [] \<and>
      filter is_Exec evs = map ping_event (take 3 allIPs)"
proof -
  from testConnectivity_ext [of w tr allIPs iface] obtain evs where
    t: "testConnectivity w tr allIPs = (Inr (), tr @ evs)" and q: "list_all (quiet iface) evs"
    and f: "filter is_Exec evs = map ping_event (take 3 allIPs)" by blast
  have "filter is_route_add (filter is_Exec evs) = []"
    unfolding f by (induction "take 3 allIPs" arbitrary: allIPs) (auto simp: ping_event_def js_def filter_empty_conv)
  moreover have "filter is_route_add (filter is_Exec evs) = filter is_route_add evs"
  proof -
    have "is_route_add e \<Longrightarrow> is_Exec e" for e by (cases e) simp_all
    then show ?thesis by (induction evs) auto
  qed
  ultimately have n: "filter is_route_add evs = []" by simp
  show ?thesis
  proof (cases "length allIPs > 0")
    case True
    with t q n f show ?thesis by auto
  next
    case False
    then have "(if length allIPs > 0 then testConnectivity w tr allIPs else (Inr (), tr)) = (Inr (), tr @ [])" by simp
    moreover have "filter is_Exec [] = map ping_event (take 3 allIPs)" using False by simp
    ultimately show ?thesis by (intro exI [of _ "[]"]) simp
  qed
qed

lemma routes_then_probe:
  "\<exists>allIPs e1 e2 rss. addRoutes w tr ds ips iface = (Inr allIPs, tr @ e1) \<and>
      (if length allIPs > 0 then testConnectivity w (tr @ e1) allIPs else (Inr (), tr @ e1)) = (Inr (), tr @ e1 @ e2) \<and>
      list_all (quiet iface) (e1 @ e2) \<and>
      filter is_route_add (e1 @ e2) = map (host_route iface) (concat rss @ ips) \<and>
      filter is_Exec e2 = map ping_event (take 3 allIPs)"
proof -
  from addRoutes_ext [of w tr ds ips iface] obtain e1 rss parts where
    a: "addRoutes w tr ds ips iface = (Inr (concat parts @ ips), tr @ e1)"
    and q1: "list_all (quiet iface) e1"
    and f1: "filter is_route_add e1 = map (host_route iface) (concat rss @ ips)" by blast
  from probe_ext [of "concat parts @ ips" w "tr @ e1" iface] obtain e2 where
    p: "(if length (concat parts @ ips) > 0 then testConnectivity w (tr @ e1) (concat parts @ ips) else (Inr (), tr @ e1))
        = (Inr (), (tr @ e1) @ e2)"
    and q2: "list_all (quiet iface) e2" and n2: "filter is_route_add e2 = []"
    and f2: "filter is_Exec e2 = map ping_event (take 3 (concat parts @ ips))" by blast
  have "list_all (quiet iface) (e1 @ e2)" using q1 q2 by simp
  moreover have "filter is_route_add (e1 @ e2) = map (host_route iface) (concat rss @ ips)" using f1 n2 by simp
  moreover have "(if length (concat parts @ ips) > 0 then testConnectivity w (tr @ e1) (concat parts @ ips) else (Inr (), tr @ e1))
        = (Inr (), tr @ e1 @ e2)" using p by simp
  ultimately show ?thesis using a f2 by blast
qed

lemma handleAddRouteMode_ext:
  "\<exists>evs addrs. handleAddRouteMode w tr ds ips iface = (Inr (), tr @ evs) \<and>
      list_all (quiet iface) evs \<and> filter is_route_add evs = map (host_route iface) addrs"
proof (cases "ds = [] \<and> ips = []")
  case True
  let ?evs = "[Info (js ''WireGuard interface '' @ apos @ iface @ apos @ js '' already exists. Adding routes...''),
               Warning (js ''Interface exists but no domains or IPs specified. Nothing to do.'')]"
  have "handleAddRouteMode w tr ds ips iface = (Inr (), tr @ ?evs)"
    using True by (simp add: handleAddRouteMode_def)
  moreover have "list_all (quiet iface) ?evs" by (simp add: quiet_simps)
  moreover have "filter is_route_add ?evs = map (host_route iface) []" by simp
  ultimately show ?thesis by blast
next
  case False
  let ?i = "Info (js ''WireGuard interface '' @ apos @ iface @ apos @ js '' already exists. Adding routes...'')"
  let ?o = "Info (js ''Route addition complete.'')"
  from routes_then_probe [of w "tr @ [?i]" ds ips iface] obtain allIPs e1 e2 rss where
    a: "addRoutes w (tr @ [?i]) ds ips iface = (Inr allIPs, (tr @ [?i]) @ e1)"
    and p: "(if length allIPs > 0 then testConnectivity w ((tr @ [?i]) @ e1) allIPs else (Inr (), (tr @ [?i]) @ e1))
            = (Inr (), (tr @ [?i]) @ e1 @ e2)"
    and q: "list_all (quiet iface) (e1 @ e2)"
    and f: "filter is_route_add (e1 @ e2) = map (host_route iface) (concat rss @ ips)" by blast
  have "handleAddRouteMode w tr ds ips iface = (Inr (), tr @ (?i # (e1 @ e2) @ [?o]))"
    using False by (simp only: handleAddRouteMode_def Let_def a p prod.case sum.case if_False) simp
  moreover have "list_all (quiet iface) (?i # (e1 @ e2) @ [?o])"
    using q by (simp add: quiet_simps)
  moreover have "filter is_route_add (?i # (e1 @ e2) @ [?o]) = map (host_route iface) (concat rss @ ips)"
    using f by simp
  ultimately show ?thesis by blast
qed

lemma handleSetupMode_ext:
  "\<exists>evs addrs. snd (handleSetupMode w tr config ds ips iface sd) = tr @ evs \<and>
      list_all (quiet iface) evs \<and> filter is_route_add evs = map (host_route iface) addrs \<and>
      isl (fst (handleSetupMode w tr config ds ips iface sd))
        = isl (fst (setupWireGuard w (tr @ [Info (js ''Setting up WireGuard interface...'')]) config iface sd))"
proof -
  let ?i = "Info (js ''Setting up WireGuard interface...'')"
  let ?o = "Info (js ''WireGuard setup complete.'')"
  obtain r0 e0 where s: "setupWireGuard w (tr @ [?i]) config iface sd = (r0, (tr @ [?i]) @ e0)"
    and q0: "list_all (quiet iface) e0" and n0: "filter is_route_add e0 = []"
    using setupWireGuard_ext [of w "tr @ [?i]" config iface sd]
    by (cases "setupWireGuard w (tr @ [?i]) config iface sd") auto
  show ?thesis
  proof (cases r0)
    case (Inl e)
    have "handleSetupMode w tr config ds ips iface sd = (Inl e, tr @ (?i # e0))"
      using s Inl by (simp add: handleSetupMode_def)
    moreover have "list_all (quiet iface) (?i # e0)" using q0 by (simp add: quiet_simps)
    moreover have "filter is_route_add (?i # e0) = map (host_route iface) []" using n0 by simp
    ultimately show ?thesis using s Inl by (intro exI [of _ "?i # e0"] exI [of _ "[]"]) simp
  next
    case (Inr u)
    from routes_then_probe [of w "(tr @ [?i]) @ e0" ds ips iface] obtain allIPs e1 e2 rss where
      a: "addRoutes w ((tr @ [?i]) @ e0) ds ips iface = (Inr allIPs, ((tr @ [?i]) @ e0) @ e1)"
      and p: "(if length allIPs > 0 then testConnectivity w (((tr @ [?i]) @ e0) @ e1) allIPs else (Inr (), ((tr @ [?i]) @ e0) @ e1))
              = (Inr (), ((tr @ [?i]) @ e0) @ e1 @ e2)"
      and q: "list_all (quiet iface) (e1 @ e2)"
      and f: "filter is_route_add (e1 @ e2) = map (host_route iface) (concat rss @ ips)" by blast
    have h: "handleSetupMode w tr config ds ips iface sd = (Inr (), tr @ (?i # e0 @ (e1 @ e2) @ [?o]))"
      by (simp only: handleSetupMode_def s Inr a p prod.case sum.case) simp
    moreover have "list_all (quiet iface) (?i # e0 @ (e1 @ e2) @ [?o])"
      using q0 q by (simp add: quiet_simps)
    moreover have "filter is_route_add (?i # e0 @ (e1 @ e2) @ [?o]) = map (host_route iface) (concat rss @ ips)"
      using n0 f by simp
    ultimately show ?thesis using s Inr
      by (intro exI [of _ "?i # e0 @ (e1 @ e2) @ [?o]"] exI [of _ "concat rss @ ips"]) simp
  qed
qed

lemma checkInterfaceExists_ext:
  "\<exists>r. checkInterfaceExists w tr iface = (r, tr @ [link_show iface])"
  by (auto simp: checkInterfaceExists_def exec_exec_def link_show_def split: sum.splits)

lemma link_show_props: "quiet iface' (link_show iface)" "\<not> is_route_add (link_show iface)"
  by (simp_all add: link_show_def quiet_simps not_route_add_simps del: is_route_add.simps(1))

lemma run_body_ext:
  "\<exists>evs addrs. snd (run_body w) = evs \<and> list_all (quiet (input_iface w)) evs \<and>
      filter is_route_add evs = map (host_route (input_iface w)) addrs \<and>
      isl (fst (run_body w)) = fatal_cause w"
proof -
  let ?iface = "input_iface w"
  obtain r where c: "checkInterfaceExists w [] ?iface = (r, [] @ [link_show ?iface])"
    using checkInterfaceExists_ext by blast
  have n: "\<not> is_route_add (link_show ?iface)" by (rule link_show_props)
  show ?thesis
  proof (cases r)
    case (Inl e)
    have "run_body w = (Inl e, [link_show ?iface])" using c Inl by (simp add: run_body_def Let_def)
    moreover have "fatal_cause w" using c Inl by (simp add: fatal_cause_def)
    ultimately show ?thesis using n by (intro exI [of _ "[link_show ?iface]"] exI [of _ "[]"]) (simp add: link_show_props)
  next
    case (Inr ex)
    show ?thesis
    proof (cases ex)
      case True
      from handleAddRouteMode_ext [of w "[link_show ?iface]" "input_domains w" "input_ips w" ?iface] obtain evs addrs where
        h: "handleAddRouteMode w [link_show ?iface] (input_domains w) (input_ips w) ?iface = (Inr (), [link_show ?iface] @ evs)"
        and q: "list_all (quiet ?iface) evs" and f: "filter is_route_add evs = map (host_route ?iface) addrs" by blast
      have "run_body w = (Inr (), [link_show ?iface] @ evs)" using c Inr True h by (simp add: run_body_def Let_def)
      moreover have "\<not> fatal_cause w" using c Inr True by (simp add: fatal_cause_def)
      moreover have "list_all (quiet ?iface) ([link_show ?iface] @ evs)" using q by (simp add: link_show_props)
      moreover have "filter is_route_add ([link_show ?iface] @ evs) = map (host_route ?iface) addrs"
        using f n by simp
      ultimately show ?thesis by (intro exI [of _ "[link_show ?iface] @ evs"] exI [of _ addrs]) simp
    next
      case False
      show ?thesis
      proof (cases "getInput w (js ''config'') True")
        case (Inl e)
        have "run_body w = (Inl e, [link_show ?iface])" using c Inr False Inl by (simp add: run_body_def Let_def)
        moreover have "fatal_cause w" using c Inr False Inl by (simp add: fatal_cause_def)
        ultimately show ?thesis using n by (intro exI [of _ "[link_show ?iface]"] exI [of _ "[]"]) (simp add: link_show_props)
      next
        case g: (Inr config)
        from handleSetupMode_ext [of w "[link_show ?iface]" config "input_domains w" "input_ips w" ?iface "input_stripDns w"]
        obtain evs addrs where
          h: "snd (handleSetupMode w [link_show ?iface] config (input_domains w) (input_ips w) ?iface (input_stripDns w)) = [link_show ?iface] @ evs"
          and q: "list_all (quiet ?iface) evs" and f: "filter is_route_add evs = map (host_route ?iface) addrs"
          and i: "isl (fst (handleSetupMode w [link_show ?iface] config (input_domains w) (input_ips w) ?iface (input_stripDns w)))
               = isl (fst (setupWireGuard w ([link_show ?iface] @ [Info (js ''Setting up WireGuard interface...'')]) config ?iface (input_stripDns w)))"
          by blast
        have rb: "run_body w = handleSetupMode w [link_show ?iface] config (input_domains w) (input_ips w) ?iface (input_stripDns w)"
          using c Inr False g by (simp add: run_body_def Let_def)
        have "fatal_cause w = isl (fst (setupWireGuard w ([link_show ?iface] @ [Info (js ''Setting up WireGuard interface...'')]) config ?iface (input_stripDns w)))"
          using c Inr False g by (simp add: fatal_cause_def)
        then have "isl (fst (run_body w)) = fatal_cause w" using rb i by simp
        moreover have "list_all (quiet ?iface) ([link_show ?iface] @ evs)" using q by (simp add: link_show_props)
        moreover have "filter is_route_add ([link_show ?iface] @ evs) = map (host_route ?iface) addrs"
          using f n by simp
        ultimately show ?thesis using rb h by (intro exI [of _ "[link_show ?iface] @ evs"] exI [of _ addrs]) simp
      qed
    qed
  qed
qed

lemma run_failed_iff:
  "failed (run w) \<longleftrightarrow> platform w \<noteq> js ''linux'' \<or> fatal_cause w"
proof (cases "platform w \<noteq> js ''linux''")
  case True
  then show ?thesis by (simp add: run_def failed_def)
next
  case False
  from run_body_ext [of w] have q: "list_all (quiet (input_iface w)) (snd (run_body w))"
    and i: "isl (fst (run_body w)) = fatal_cause w" by auto
  have nf: "\<not> failed (snd (run_body w))" using q by (rule not_failed_quiet)
  show ?thesis
  proof (cases "run_body w")
    case (Pair r tr)
    then show ?thesis using False nf i by (cases r) (auto simp: run_def failed_def)
  qed
qed

lemma run_routes:
  "\<exists>addrs. filter is_route_add (run w) = map (host_route (input_iface w)) addrs"
proof (cases "platform w \<noteq> js ''linux''")
  case True
  then have "filter is_route_add (run w) = map (host_route (input_iface w)) []" by (simp add: run_def)
  then show ?thesis by blast
next
  case False
  from run_body_ext [of w] obtain addrs where
    f: "filter is_route_add (snd (run_body w)) = map (host_route (input_iface w)) addrs" by auto
  have "filter is_route_add (run w) = filter is_route_add (snd (run_body w))"
    using False by (cases "run_body w") (auto simp: run_def split: sum.splits)
  with f show ?thesis by metis
qed


section \<open>The claims on the Mode Controller and the Route Applicator\<close>

lemma js_append: "js (a @ b) = js a @ js b"
  by (simp add: js_def)

lemma js_not_Nil: "js (c # s) \<noteq> []"
  by (simp add: js_def)

lemma run_without_config:
  assumes "input_raw w (js ''config'') = []"
    and "fst (checkInterfaceExists w [] (input_iface w)) \<noteq> Inr True"
  shows "run w =
     (if platform w \<noteq> js ''linux''
      then [SetFailed (js ''This action currently supports only Linux runners.'')]
      else case fst (checkInterfaceExists w [] (input_iface w)) of
             Inl err \<Rightarrow> [link_show (input_iface w),
                         SetFailed (js ''WireGuard action failed: '' @
                            (if err_message err \<noteq> [] then err_message err else err_toString err))]
           | Inr interfaceExists \<Rightarrow>
               [link_show (input_iface w),
                SetFailed (js ''WireGuard action failed: Input required and not supplied: config'')])"
proof (cases "platform w \<noteq> js ''linux''")
  case True
  then show ?thesis by (simp add: run_def)
next
  case False
  obtain r where c: "checkInterfaceExists w [] (input_iface w) = (r, [] @ [link_show (input_iface w)])"
    using checkInterfaceExists_ext by blast
  show ?thesis
  proof (cases r)
    case (Inl e)
    then show ?thesis using False c by (simp add: run_def run_body_def Let_def)
  next
    case (Inr ex)
    then have ex: "\<not> ex" using assms(2) c by auto
    have g: "getInput w (js ''config'') True = Inl (mk_error (js ''Input required and not supplied: '' @ js ''config''))"
      using assms(1) by (simp add: getInput_def)
    have m: "js ''WireGuard action failed: '' @ js ''Input required and not supplied: '' @ js ''config''
        = js ''WireGuard action failed: Input required and not supplied: config''"
      by (simp add: js_def)
    have "js ''Input required and not supplied: '' @ js ''config'' \<noteq> []" by (simp add: js_def)
    then show ?thesis using False c Inr ex g m by (simp add: run_def run_body_def Let_def mk_error_def)
  qed
qed

text \<open>
  Claim C1. When the \<open>config\<close> input is not supplied and the interface query does not
  report the interface (it exits with a code other than 0, or cannot be run), the
  invocation ends with the failure signal and a message that is not empty, and its log
  holds no route application at all. On Linux, when the query ran, the log is the query
  followed by the failure \<open>WireGuard action failed: Input required and not supplied: config\<close>.
\<close>

theorem run_fails_without_interface_and_config:
  assumes "input_raw w (js ''config'') = []"
    and "fst (checkInterfaceExists w [] (input_iface w)) \<noteq> Inr True"
  shows "failed (run w) \<and>
         (\<exists>msg. msg \<noteq> [] \<and> last (run w) = SetFailed msg) \<and>
         filter is_route_add (run w) = [] \<and>
         (platform w \<noteq> js ''linux'' \<or> isl (fst (checkInterfaceExists w [] (input_iface w))) \<or>
          run w = [Exec (js ''ip'') [js ''link'', js ''show'', input_iface w],
                   SetFailed (js ''WireGuard action failed: Input required and not supplied: config'')])"
proof -
  note r = run_without_config [OF assms]
  have n: "\<not> is_route_add (link_show (input_iface w))" by (rule link_show_props)
  show ?thesis
  proof (cases "platform w \<noteq> js ''linux''")
    case True
    then have "run w = [SetFailed (js ''This action currently supports only Linux runners.'')]" using r by simp
    moreover have "js ''This action currently supports only Linux runners.'' \<noteq> []" by (simp add: js_def)
    ultimately show ?thesis using True by (simp add: failed_def)
  next
    case False
    show ?thesis
    proof (cases "fst (checkInterfaceExists w [] (input_iface w))")
      case (Inl e)
      then have "run w = [link_show (input_iface w),
                         SetFailed (js ''WireGuard action failed: '' @
                            (if err_message e \<noteq> [] then err_message e else err_toString e))]"
        using r False by simp
      moreover have "js ''WireGuard action failed: '' @ (if err_message e \<noteq> [] then err_message e else err_toString e) \<noteq> []"
        by (simp add: js_def)
      ultimately show ?thesis using Inl n by (simp add: failed_def)
    next
      case (Inr ex)
      then have "run w = [link_show (input_iface w),
                SetFailed (js ''WireGuard action failed: Input required and not supplied: config'')]"
        using r False by simp
      moreover have "js ''WireGuard action failed: Input required and not supplied: config'' \<noteq> []"
        by (simp add: js_def)
      ultimately show ?thesis using n by (simp add: failed_def link_show_def)
    qed
  qed
qed

text \<open>Claim C1 on a Linux host with no inputs where every command exits with code 1.\<close>

theorem run_fails_without_interface_and_config_witness:
  "input_raw (test_host (always_exit 1) never never no_inputs) (js ''config'') = [] \<and>
   fst (checkInterfaceExists (test_host (always_exit 1) never never no_inputs) []
          (input_iface (test_host (always_exit 1) never never no_inputs))) \<noteq> Inr True \<and>
   failed (run (test_host (always_exit 1) never never no_inputs)) \<and>
   filter is_route_add (run (test_host (always_exit 1) never never no_inputs)) = [] \<and>
   run (test_host (always_exit 1) never never no_inputs) =
     [Exec (js ''ip'') [js ''link'', js ''show'', js ''wg0''],
      SetFailed (js ''WireGuard action failed: Input required and not supplied: config'')]"
proof -
  let ?w = "test_host (always_exit 1) never never no_inputs"
  have 1: "input_raw ?w (js ''config'') = []" by (simp add: test_host_def no_inputs_def)
  have i: "input_iface ?w = js ''wg0''"
    by (simp add: input_iface_def input_or_empty_def getInput_def test_host_def no_inputs_def trim_def)
  have c: "fst (checkInterfaceExists ?w [] (input_iface ?w)) = Inr False"
    by (simp add: checkInterfaceExists_def exec_exec_def exec_settle_def test_host_def always_exit_def)
  then have 2: "fst (checkInterfaceExists ?w [] (input_iface ?w)) \<noteq> Inr True" by simp
  have p: "platform ?w = js ''linux''" by (simp add: test_host_def)
  note T = run_fails_without_interface_and_config [OF 1 2]
  have f: "failed (run ?w)" using T by (rule conjunct1)
  have n: "filter is_route_add (run ?w) = []" using T by blast
  have "platform ?w \<noteq> js ''linux'' \<or> isl (fst (checkInterfaceExists ?w [] (input_iface ?w))) \<or>
          run ?w = [Exec (js ''ip'') [js ''link'', js ''show'', input_iface ?w],
                   SetFailed (js ''WireGuard action failed: Input required and not supplied: config'')]"
    using T by blast
  then have "run ?w = [Exec (js ''ip'') [js ''link'', js ''show'', input_iface ?w],
                   SetFailed (js ''WireGuard action failed: Input required and not supplied: config'')]"
    using p c by simp
  then have r: "run ?w = [Exec (js ''ip'') [js ''link'', js ''show'', js ''wg0''],
                   SetFailed (js ''WireGuard action failed: Input required and not supplied: config'')]"
    unfolding i .
  show ?thesis using 1 2 f n r by blast
qed

text \<open>
  Claim C2. \<open>addSingleRoute\<close> runs exactly one command: for an address with a colon
  \<open>sudo ip -6 route add <ip>/128 dev <iface>\<close>, otherwise
  \<open>sudo ip route add <ip>/32 dev <iface>\<close>. Every route application in the log of a
  whole invocation has one of these two forms, on the interface of the inputs.
\<close>

theorem addSingleRoute_host_route:
  "snd (addSingleRoute w tr ip iface) =
     tr @ [Exec (js ''sudo'')
             (if colon \<in> set ip
              then [js ''ip'', js ''-6'', js ''route'', js ''add'', ip @ js ''/128'', js ''dev'', iface]
              else [js ''ip'', js ''route'', js ''add'', ip @ js ''/32'', js ''dev'', iface])] \<and>
   (\<exists>addrs. filter is_route_add (run w) =
        map (\<lambda>ip. Exec (js ''sudo'')
               (if colon \<in> set ip
                then [js ''ip'', js ''-6'', js ''route'', js ''add'', ip @ js ''/128'', js ''dev'', input_iface w]
                else [js ''ip'', js ''route'', js ''add'', ip @ js ''/32'', js ''dev'', input_iface w])) addrs)"
proof -
  have h: "host_route i a = Exec (js ''sudo'')
               (if colon \<in> set a
                then [js ''ip'', js ''-6'', js ''route'', js ''add'', a @ js ''/128'', js ''dev'', i]
                else [js ''ip'', js ''route'', js ''add'', a @ js ''/32'', js ''dev'', i])" for i a
    by (simp add: host_route_def host_route_args_def)
  have 1: "snd (addSingleRoute w tr ip iface) = tr @ [host_route iface ip]"
    using addSingleRoute_trace [of w tr ip iface] by (simp add: host_route_def)
  from run_routes [of w] obtain addrs where
    "filter is_route_add (run w) = map (host_route (input_iface w)) addrs" by blast
  then have 2: "filter is_route_add (run w) = map (\<lambda>ip. Exec (js ''sudo'')
               (if colon \<in> set ip
                then [js ''ip'', js ''-6'', js ''route'', js ''add'', ip @ js ''/128'', js ''dev'', input_iface w]
                else [js ''ip'', js ''route'', js ''add'', ip @ js ''/32'', js ''dev'', input_iface w])) addrs"
    unfolding h .
  show ?thesis using 1 [unfolded h] 2 by blast
qed


section \<open>The claims on the Address Resolver\<close>

lemma resolve_family_part_001_ext:
  "(case await_promise p of
      None \<Rightarrow> resolve_family_part_001 fam p d tr = None
    | Some r \<Rightarrow> (\<exists>ips ws. resolve_family_part_001 fam p d tr = Some (ips, tr @ ws) \<and>
                    family_result_unbounded_warn_all r ips ws))"
  by (cases p)
     (auto simp: await_promise_def resolve_family_part_001_def family_result_unbounded_warn_all_def
        one_warning_def split: sum.splits)

lemma resolveDomainIPs_part_001_ext:
  "(case await_promise (resolve4_oracle w tr d) of
      None \<Rightarrow> resolveDomainIPs_part_001 w tr d = None
    | Some r4 \<Rightarrow>
        (\<exists>ips4 ws4. family_result_unbounded_warn_all r4 ips4 ws4 \<and>
           (case await_promise (resolve6_oracle w (tr @ [Resolve4 d] @ ws4) d) of
              None \<Rightarrow> resolveDomainIPs_part_001 w tr d = None
            | Some r6 \<Rightarrow>
                (\<exists>ips6 ws6. family_result_unbounded_warn_all r6 ips6 ws6 \<and>
                   resolveDomainIPs_part_001 w tr d =
                     Some (Inr (ips4 @ ips6), tr @ [Resolve4 d] @ ws4 @ [Resolve6 d] @ ws6)))))"
proof (cases "await_promise (resolve4_oracle w tr d)")
  case None
  then have "resolve_family_part_001 (js ''IPv4'') (resolve4_oracle w tr d) d (tr @ [Resolve4 d]) = None"
    using resolve_family_part_001_ext [where p = "resolve4_oracle w tr d" and fam = "js ''IPv4''" and d = d and tr = "tr @ [Resolve4 d]"] by simp
  then show ?thesis using None by (simp add: resolveDomainIPs_part_001_def)
next
  case (Some r4)
  then obtain ips4 ws4 where
    4: "resolve_family_part_001 (js ''IPv4'') (resolve4_oracle w tr d) d (tr @ [Resolve4 d]) = Some (ips4, (tr @ [Resolve4 d]) @ ws4)"
    and f4: "family_result_unbounded_warn_all r4 ips4 ws4"
    using resolve_family_part_001_ext [where p = "resolve4_oracle w tr d" and fam = "js ''IPv4''" and d = d and tr = "tr @ [Resolve4 d]"] by auto
  let ?tr1 = "(tr @ [Resolve4 d]) @ ws4"
  have "case await_promise (resolve6_oracle w ?tr1 d) of
              None \<Rightarrow> resolveDomainIPs_part_001 w tr d = None
            | Some r6 \<Rightarrow>
                (\<exists>ips6 ws6. family_result_unbounded_warn_all r6 ips6 ws6 \<and>
                   resolveDomainIPs_part_001 w tr d =
                     Some (Inr (ips4 @ ips6), tr @ [Resolve4 d] @ ws4 @ [Resolve6 d] @ ws6))"
  proof (cases "await_promise (resolve6_oracle w ?tr1 d)")
    case None
    then have "resolve_family_part_001 (js ''IPv6'') (resolve6_oracle w ?tr1 d) d (?tr1 @ [Resolve6 d]) = None"
      using resolve_family_part_001_ext [where p = "resolve6_oracle w ?tr1 d" and fam = "js ''IPv6''" and d = d and tr = "?tr1 @ [Resolve6 d]"] by simp
    then show ?thesis using None 4 by (simp add: resolveDomainIPs_part_001_def)
  next
    case s6: (Some r6)
    then obtain ips6 ws6 where
      6: "resolve_family_part_001 (js ''IPv6'') (resolve6_oracle w ?tr1 d) d (?tr1 @ [Resolve6 d]) = Some (ips6, (?tr1 @ [Resolve6 d]) @ ws6)"
      and f6: "family_result_unbounded_warn_all r6 ips6 ws6"
      using resolve_family_part_001_ext [where p = "resolve6_oracle w ?tr1 d" and fam = "js ''IPv6''" and d = d and tr = "?tr1 @ [Resolve6 d]"] by auto
    have "resolveDomainIPs_part_001 w tr d = Some (Inr (ips4 @ ips6), tr @ [Resolve4 d] @ ws4 @ [Resolve6 d] @ ws6)"
      using 4 6 by (simp add: resolveDomainIPs_part_001_def)
    then show ?thesis using s6 f6 by auto
  qed
  then show ?thesis using Some f4 by auto
qed

text \<open>
  Claim C3, as amended. In \<open>src/index.ts\<close>, \<open>resolveDomainIPs\<close> queries IPv4, then IPv6,
  never throws, and returns the IPv4 addresses followed by the IPv6 addresses, where each
  family contributes as the specification says: its addresses and no warning when the
  lookup succeeded in time; nothing and no warning for \<open>ENOTFOUND\<close> and \<open>ENODATA\<close>;
  nothing and one warning for any other error and for a timeout. The variant that
  reports the public address differs: it awaits each lookup with no timer (it does not
  return when a lookup never settles) and gives one warning for every error, the missing
  record included.
\<close>

theorem resolveDomainIPs_families:
  "(\<exists>ips4 ws4 ips6 ws6.
      resolveDomainIPs w tr d = (Inr (ips4 @ ips6), tr @ [Resolve4 d] @ ws4 @ [Resolve6 d] @ ws6) \<and>
      family_result (resolve4_oracle w tr d) ips4 ws4 \<and>
      family_result (resolve6_oracle w (tr @ [Resolve4 d] @ ws4) d) ips6 ws6) \<and>
   (case await_promise (resolve4_oracle w tr d) of
      None \<Rightarrow> resolveDomainIPs_part_001 w tr d = None
    | Some r4 \<Rightarrow>
        (\<exists>ips4 ws4. family_result_unbounded_warn_all r4 ips4 ws4 \<and>
           (case await_promise (resolve6_oracle w (tr @ [Resolve4 d] @ ws4) d) of
              None \<Rightarrow> resolveDomainIPs_part_001 w tr d = None
            | Some r6 \<Rightarrow>
                (\<exists>ips6 ws6. family_result_unbounded_warn_all r6 ips6 ws6 \<and>
                   resolveDomainIPs_part_001 w tr d =
                     Some (Inr (ips4 @ ips6), tr @ [Resolve4 d] @ ws4 @ [Resolve6 d] @ ws6)))))"
  using resolveDomainIPs_ext [of w tr d] resolveDomainIPs_part_001_ext [of w tr d] by (rule conjI)

text \<open>
  Claim C3 as stated fails in the variant that reports the public address: a lookup that
  ends with \<open>ENOTFOUND\<close> is a missing record, and the variant warns for it.
\<close>

theorem part_001_warns_on_not_found_counterexample:
  "no_record (JsError (js ''Error'') (Some ENOTFOUND) (js ''queryA ENOTFOUND a.test'')) \<and>
   resolve4_oracle (test_host (always_exit 0) not_found (found_after 10 [js ''2001:db8::1'']) no_inputs) [] (js ''a.test'')
     = Settles 10 (Inl (JsError (js ''Error'') (Some ENOTFOUND) (js ''queryA ENOTFOUND a.test''))) \<and>
   resolveDomainIPs_part_001 (test_host (always_exit 0) not_found (found_after 10 [js ''2001:db8::1'']) no_inputs) [] (js ''a.test'')
     = Some (Inr [js ''2001:db8::1''],
             [Resolve4 (js ''a.test''),
              Warning (js ''IPv4 resolution failed for a.test: queryA ENOTFOUND a.test''),
              Resolve6 (js ''a.test'')])"
  by (simp add: no_record_def test_host_def not_found_def found_after_def resolveDomainIPs_part_001_def
      resolve_family_part_001_def await_promise_def js_append [symmetric])












section \<open>The claim on the Reachability Prober\<close>

lemma tool_names: "js ''sudo'' \<noteq> js ''ping''" "js ''sudo'' \<noteq> js ''ping6''"
  "js ''ip'' \<noteq> js ''ping''" "js ''ip'' \<noteq> js ''ping6''"
  by (simp_all add: js_def)

lemma same_but_ping_exec:
  assumes "same_but_ping w w'" and "tool = js ''sudo'' \<or> tool = js ''ip''"
  shows "exec_exec w' tr tool args ign = exec_exec w tr tool args ign"
proof -
  from assms(1) obtain f where w': "w' = w\<lparr>exec_oracle := f\<rparr>"
    and f: "\<forall>tr tool args. tool = js ''ping'' \<or> tool = js ''ping6'' \<or> f tr tool args = exec_oracle w tr tool args"
    unfolding same_but_ping_def by blast
  have "tool \<noteq> js ''ping''" "tool \<noteq> js ''ping6''" using assms(2) tool_names by auto
  then have "f tr tool args = exec_oracle w tr tool args" using f by blast
  then show ?thesis by (simp add: exec_exec_def w')
qed

lemma same_but_ping_fields:
  assumes "same_but_ping w w'"
  shows "platform w' = platform w" "input_raw w' = input_raw w" "tmpdir w' = tmpdir w"
    "path_join w' = path_join w" "mkdtemp_oracle w' = mkdtemp_oracle w"
    "writeFile_oracle w' = writeFile_oracle w" "mkdirP_oracle w' = mkdirP_oracle w"
    "base64_utf8 w' = base64_utf8 w" "toLowerCase w' = toLowerCase w"
  using assms unfolding same_but_ping_def by auto

lemma same_but_ping_setup:
  assumes "same_but_ping w w'"
  shows "setupWireGuard w' tr config iface sd = setupWireGuard w tr config iface sd"
proof -
  note e = same_but_ping_exec [OF assms] and fl = same_but_ping_fields [OF assms]
  have 1: "installWireGuard w' t = installWireGuard w t" for t
    by (simp add: installWireGuard_def e)
  have 2: "setupWireGuardConfig w' t config iface sd = setupWireGuardConfig w t config iface sd" for t
    by (simp add: setupWireGuardConfig_def strip_dns_lines_def e fl Let_def
        cong: sum.case_cong option.case_cong prod.case_cong)
  have 3: "startWireGuardInterface w' t iface = startWireGuardInterface w t iface" for t
    by (simp add: startWireGuardInterface_def e)
  show ?thesis by (simp add: setupWireGuard_def 1 2 3 cong: sum.case_cong prod.case_cong)
qed

lemma same_but_ping_fatal:
  assumes "same_but_ping w w'"
  shows "fatal_cause w' = fatal_cause w"
proof -
  note e = same_but_ping_exec [OF assms] and fl = same_but_ping_fields [OF assms]
  have g: "getInput w' n r = getInput w n r" for n r by (simp add: getInput_def fl)
  have i: "input_iface w' = input_iface w" by (simp add: input_iface_def input_or_empty_def g)
  have s: "input_stripDns w' = input_stripDns w" by (simp add: input_stripDns_def input_or_empty_def g)
  have c: "checkInterfaceExists w' t x = checkInterfaceExists w t x" for t x
    by (simp add: checkInterfaceExists_def e)
  show ?thesis
    by (simp add: fatal_cause_def i s c g same_but_ping_setup [OF assms] cong: sum.case_cong prod.case_cong)
qed

lemma ips_input: "input_ips (test_host ex r4 r6 (only_ips (js ''10.0.0.5''))) = [js ''10.0.0.5'']"
  by (simp add: input_ips_def input_or_empty_def getInput_def parseInputList_def trim_def is_ws_def comma_def
      test_host_def only_ips_def js_def)

lemma doms_input: "input_domains (test_host ex r4 r6 (only_ips v)) = []"
  by (simp add: input_domains_def input_or_empty_def getInput_def parseInputList_def trim_def comma_def
      test_host_def only_ips_def js_def)

lemma iface_input: "input_iface (test_host ex r4 r6 (only_ips v)) = js ''wg0''"
  by (simp add: input_iface_def input_or_empty_def getInput_def trim_def
      test_host_def only_ips_def js_def)

lemma run_probes_hang:
  "run (test_host probes_hang never never (only_ips (js ''10.0.0.5''))) =
     [Exec (js ''ip'') [js ''link'', js ''show'', js ''wg0''],
      Info (js ''WireGuard interface '' @ apos @ js ''wg0'' @ apos @ js '' already exists. Adding routes...''),
      Info (js ''Adding routes for 1 IP address(es)...''),
      Info (js ''Adding route for 10.0.0.5/32 via wg0''),
      Exec (js ''sudo'') [js ''ip'', js ''route'', js ''add'', js ''10.0.0.5/32'', js ''dev'', js ''wg0''],
      Info (js ''Added 1 route(s) for IPs.''),
      Info (js ''Testing connectivity to routed IPs...''),
      Info (js ''Pinging 10.0.0.5...''),
      Exec (js ''ping'') [js ''-c'', js ''2'', js ''-W'', js ''3'', js ''10.0.0.5''],
      Warning (js ''Ping test for 10.0.0.5 failed or timed out: Ping timeout''),
      Info (js ''Route addition complete.'')]"
proof -
  let ?w = "test_host probes_hang never never (only_ips (js ''10.0.0.5''))"
  have p: "platform ?w = js ''linux''" by (simp add: test_host_def)
  have c: "checkInterfaceExists ?w [] (js ''wg0'') = (Inr True, [Exec (js ''ip'') [js ''link'', js ''show'', js ''wg0'']])"
    by (simp add: checkInterfaceExists_def exec_exec_def exec_settle_def test_host_def probes_hang_def js_def)
  have h: "handleAddRouteMode ?w [Exec (js ''ip'') [js ''link'', js ''show'', js ''wg0'']] [] [js ''10.0.0.5''] (js ''wg0'')
     = (Inr (), [Exec (js ''ip'') [js ''link'', js ''show'', js ''wg0''],
      Info (js ''WireGuard interface '' @ apos @ js ''wg0'' @ apos @ js '' already exists. Adding routes...''),
      Info (js ''Adding routes for 1 IP address(es)...''),
      Info (js ''Adding route for 10.0.0.5/32 via wg0''),
      Exec (js ''sudo'') [js ''ip'', js ''route'', js ''add'', js ''10.0.0.5/32'', js ''dev'', js ''wg0''],
      Info (js ''Added 1 route(s) for IPs.''),
      Info (js ''Testing connectivity to routed IPs...''),
      Info (js ''Pinging 10.0.0.5...''),
      Exec (js ''ping'') [js ''-c'', js ''2'', js ''-W'', js ''3'', js ''10.0.0.5''],
      Warning (js ''Ping test for 10.0.0.5 failed or timed out: Ping timeout''),
      Info (js ''Route addition complete.'')])"
    by (simp add: handleAddRouteMode_def addRoutes_def addRoutesForDomains_def addRoutesForIPs_def
        addSingleRoute_def testConnectivity_def exec_exec_def exec_settle_def exec_promise_def race_reject_def
        mk_error_def Let_def colon_def test_host_def probes_hang_def js_def apos_def)
  show ?thesis
    unfolding run_def run_body_def Let_def ips_input doms_input iface_input c using p h by simp
qed

text \<open>
  Claim C4. \<open>testConnectivity\<close> never throws and raises no failure signal; the commands
  it runs are exactly the probes of the first three addresses of its list, in order. The
  outcome of an invocation is the same on two hosts that differ in nothing but how their
  probes behave (exit code, failure to run, duration).
\<close>

theorem probe_is_bounded_and_harmless:
  "(\<exists>evs. testConnectivity w tr ips = (Inr (), tr @ evs) \<and>
      filter is_Exec evs = map ping_event (take 3 ips) \<and>
      length (filter is_Exec evs) \<le> 3 \<and>
      \<not> failed evs) \<and>
   (same_but_ping w w' \<longrightarrow> failed (run w') = failed (run w))"
proof -
  from testConnectivity_ext [of w tr ips "[]"] obtain evs where
    t: "testConnectivity w tr ips = (Inr (), tr @ evs)" and q: "list_all (quiet []) evs"
    and f: "filter is_Exec evs = map ping_event (take 3 ips)" by blast
  have n: "\<not> failed evs" using q by (rule not_failed_quiet)
  have l: "length (filter is_Exec evs) \<le> 3" unfolding f by simp
  have "failed (run w') = failed (run w)" if s: "same_but_ping w w'"
    using same_but_ping_fatal [OF s] same_but_ping_fields(1) [OF s] by (simp add: run_failed_iff)
  with t f l n show ?thesis by blast
qed

text \<open>
  Claim C4 on two hosts with the input \<open>ips = "10.0.0.5"\<close> and an existing interface: on
  the first every command exits with 0 at once, on the second a probe takes 20 seconds
  and fails. The second invocation warns that the probe timed out and does not fail.
\<close>

theorem probe_is_bounded_and_harmless_witness:
  "same_but_ping (test_host (always_exit 0) never never (only_ips (js ''10.0.0.5'')))
                 (test_host probes_hang never never (only_ips (js ''10.0.0.5''))) \<and>
   failed (run (test_host probes_hang never never (only_ips (js ''10.0.0.5''))))
     = failed (run (test_host (always_exit 0) never never (only_ips (js ''10.0.0.5'')))) \<and>
   Warning (js ''Ping test for 10.0.0.5 failed or timed out: Ping timeout'')
     \<in> set (run (test_host probes_hang never never (only_ips (js ''10.0.0.5'')))) \<and>
   \<not> failed (run (test_host probes_hang never never (only_ips (js ''10.0.0.5''))))"
proof -
  let ?w0 = "test_host (always_exit 0) never never (only_ips (js ''10.0.0.5''))"
  let ?w1 = "test_host probes_hang never never (only_ips (js ''10.0.0.5''))"
  have "?w1 = ?w0\<lparr>exec_oracle := probes_hang\<rparr>" by (simp add: test_host_def)
  moreover have "\<forall>tr tool args. tool = js ''ping'' \<or> tool = js ''ping6'' \<or>
      probes_hang tr tool args = exec_oracle ?w0 tr tool args"
    by (simp add: probes_hang_def test_host_def always_exit_def)
  ultimately have s: "same_but_ping ?w0 ?w1" unfolding same_but_ping_def by blast
  have e: "failed (run ?w1) = failed (run ?w0)"
    using probe_is_bounded_and_harmless [of ?w0 "[]" "[]" ?w1] s by blast
  have w: "Warning (js ''Ping test for 10.0.0.5 failed or timed out: Ping timeout'') \<in> set (run ?w1)"
    unfolding run_probes_hang by simp
  have n: "\<not> failed (run ?w1)"
    unfolding run_probes_hang by (simp add: failed_def)
  show ?thesis using s e w n by blast
qed


section \<open>The claim on literal addresses that were not routed\<close>

lemma routes_refused_never_applied:
  "\<not> applied (test_host routes_refused r4 r6 inp) iface final ip"
  by (simp add: applied_def addSingleRoute_def exec_exec_def exec_settle_def test_host_def routes_refused_def Let_def)

lemma run_routes_refused:
  "run (test_host routes_refused never never (only_ips (js ''10.0.0.5''))) =
     [Exec (js ''ip'') [js ''link'', js ''show'', js ''wg0''],
      Info (js ''WireGuard interface '' @ apos @ js ''wg0'' @ apos @ js '' already exists. Adding routes...''),
      Info (js ''Adding routes for 1 IP address(es)...''),
      Info (js ''Adding route for 10.0.0.5/32 via wg0''),
      Exec (js ''sudo'') [js ''ip'', js ''route'', js ''add'', js ''10.0.0.5/32'', js ''dev'', js ''wg0''],
      Warning (js ''Failed to add route for 10.0.0.5: The process '' @ apos @ js ''/usr/bin/sudo'' @ apos @ js '' failed with exit code 2''),
      Info (js ''Added 0 route(s) for IPs.''),
      Info (js ''Testing connectivity to routed IPs...''),
      Info (js ''Pinging 10.0.0.5...''),
      Exec (js ''ping'') [js ''-c'', js ''2'', js ''-W'', js ''3'', js ''10.0.0.5''],
      Info (js ''Route addition complete.'')]"
proof -
  let ?w = "test_host routes_refused never never (only_ips (js ''10.0.0.5''))"
  have p: "platform ?w = js ''linux''" by (simp add: test_host_def)
  have c: "checkInterfaceExists ?w [] (js ''wg0'') = (Inr True, [Exec (js ''ip'') [js ''link'', js ''show'', js ''wg0'']])"
    by (simp add: checkInterfaceExists_def exec_exec_def exec_settle_def test_host_def routes_refused_def js_def)
  have h: "handleAddRouteMode ?w [Exec (js ''ip'') [js ''link'', js ''show'', js ''wg0'']] [] [js ''10.0.0.5''] (js ''wg0'')
     = (Inr (), [Exec (js ''ip'') [js ''link'', js ''show'', js ''wg0''],
      Info (js ''WireGuard interface '' @ apos @ js ''wg0'' @ apos @ js '' already exists. Adding routes...''),
      Info (js ''Adding routes for 1 IP address(es)...''),
      Info (js ''Adding route for 10.0.0.5/32 via wg0''),
      Exec (js ''sudo'') [js ''ip'', js ''route'', js ''add'', js ''10.0.0.5/32'', js ''dev'', js ''wg0''],
      Warning (js ''Failed to add route for 10.0.0.5: The process '' @ apos @ js ''/usr/bin/sudo'' @ apos @ js '' failed with exit code 2''),
      Info (js ''Added 0 route(s) for IPs.''),
      Info (js ''Testing connectivity to routed IPs...''),
      Info (js ''Pinging 10.0.0.5...''),
      Exec (js ''ping'') [js ''-c'', js ''2'', js ''-W'', js ''3'', js ''10.0.0.5''],
      Info (js ''Route addition complete.'')])"
    by (simp add: handleAddRouteMode_def addRoutes_def addRoutesForDomains_def addRoutesForIPs_def
        addSingleRoute_def testConnectivity_def exec_exec_def exec_settle_def exec_promise_def race_reject_def
        mk_error_def Let_def colon_def test_host_def routes_refused_def js_def apos_def)
  show ?thesis
    unfolding run_def run_body_def Let_def ips_input doms_input iface_input c using p h by simp
qed

text \<open>
  Claim C10. The list returned by \<open>addRoutes\<close> ends with all the literal addresses as
  given, whatever happened to their routes, while every address of its domain-derived
  part was applied: \<open>addSingleRoute\<close> ran for it in this log and did not throw. So a
  literal address that was never routed can be probed: on a host that refuses every route
  application, the invocation with \<open>ips = "10.0.0.5"\<close> logs the refusal, never applies
  the address, and probes it.
\<close>

theorem addRoutes_keeps_failed_literals:
  "(\<exists>parts evs.
      addRoutes w tr ds ips iface = (Inr (concat parts @ ips), tr @ evs) \<and>
      list_all (applied w iface (tr @ evs)) (concat parts)) \<and>
   Warning (js ''Failed to add route for 10.0.0.5: The process '' @ apos @ js ''/usr/bin/sudo'' @ apos @ js '' failed with exit code 2'')
     \<in> set (run (test_host routes_refused never never (only_ips (js ''10.0.0.5'')))) \<and>
   \<not> applied (test_host routes_refused never never (only_ips (js ''10.0.0.5''))) (js ''wg0'')
       (run (test_host routes_refused never never (only_ips (js ''10.0.0.5'')))) (js ''10.0.0.5'') \<and>
   ping_event (js ''10.0.0.5'') \<in> set (run (test_host routes_refused never never (only_ips (js ''10.0.0.5''))))"
proof -
  from addRoutes_ext [of w tr ds ips iface] obtain evs rss parts where
    a: "addRoutes w tr ds ips iface = (Inr (concat parts @ ips), tr @ evs)"
    and ap: "\<forall>ip\<in>set (concat parts). applied w iface (tr @ evs) ip" by blast
  have "list_all (applied w iface (tr @ evs)) (concat parts)" using ap by (simp only: list_all_iff)
  with a have 1: "\<exists>parts evs.
      addRoutes w tr ds ips iface = (Inr (concat parts @ ips), tr @ evs) \<and>
      list_all (applied w iface (tr @ evs)) (concat parts)" by blast
  have 2: "Warning (js ''Failed to add route for 10.0.0.5: The process '' @ apos @ js ''/usr/bin/sudo'' @ apos @ js '' failed with exit code 2'')
     \<in> set (run (test_host routes_refused never never (only_ips (js ''10.0.0.5''))))"
    unfolding run_routes_refused by simp
  have 3: "ping_event (js ''10.0.0.5'') \<in> set (run (test_host routes_refused never never (only_ips (js ''10.0.0.5''))))"
    unfolding run_routes_refused by (simp add: ping_event_def colon_def js_def)
  show ?thesis using 1 2 3 routes_refused_never_applied by blast
qed


section \<open>Duplicate literal addresses\<close>




section \<open>The steps of the domain batch\<close>

lemma step_logged_mono: "step_logged w iface tr s \<Longrightarrow> prefix tr tr' \<Longrightarrow> step_logged w iface tr' s"
  unfolding step_logged_def by (auto split: sum.splits intro: prefix_order.trans)

lemma steps_logged_mono:
  "list_all (step_logged w iface tr) steps \<Longrightarrow> prefix tr tr' \<Longrightarrow> list_all (step_logged w iface tr') steps"
  by (induction steps) (auto intro: step_logged_mono)

lemma stepss_logged_mono:
  "list_all (list_all (step_logged w iface tr)) stepss \<Longrightarrow> prefix tr tr' \<Longrightarrow>
     list_all (list_all (step_logged w iface tr')) stepss"
  by (induction stepss) (auto intro: steps_logged_mono)

lemma resolved_in_mono: "resolved_in w tr d steps \<Longrightarrow> prefix tr tr' \<Longrightarrow> resolved_in w tr' d steps"
  unfolding resolved_in_def by (meson prefix_order.trans)

lemma resolved_all_mono:
  "list_all2 (resolved_in w tr) ds stepss \<Longrightarrow> prefix tr tr' \<Longrightarrow> list_all2 (resolved_in w tr') ds stepss"
  by (induction ds stepss rule: list_all2_induct) (auto intro: resolved_in_mono)

lemma kept_Cons_ok:
  "fst (addSingleRoute w t ip iface) = Inr () \<Longrightarrow> kept w iface ((ip, t) # steps) = ip # kept w iface steps"
  by (simp add: kept_def)

lemma kept_Cons_thrown:
  "fst (addSingleRoute w t ip iface) = Inl e \<Longrightarrow> kept w iface ((ip, t) # steps) = kept w iface steps"
  by (simp add: kept_def)

lemma addRoutesForDomains_ips_steps:
  "\<exists>evs steps.
      addRoutesForDomains_ips w d iface ips tr rc all =
        (tr @ evs, rc + length (kept w iface steps), all @ kept w iface steps) \<and>
      map fst steps = ips \<and>
      list_all (step_logged w iface (tr @ evs)) steps \<and>
      list_all (quiet iface) evs \<and>
      filter is_route_add evs = map (host_route iface) ips"
proof (induction ips arbitrary: tr rc all)
  case Nil
  have "addRoutesForDomains_ips w d iface [] tr rc all = (tr @ [], rc + length (kept w iface []), all @ kept w iface [])"
    by (simp add: kept_def)
  moreover have "map fst ([]::(jsstring \<times> trace) list) = []" by simp
  moreover have "list_all (step_logged w iface (tr @ [])) []" by simp
  moreover have "list_all (quiet iface) []" by simp
  moreover have "filter is_route_add [] = map (host_route iface) []" by simp
  ultimately show ?case by blast
next
  case (Cons ip ips)
  let ?i = "Info (js ''Adding route for '' @ d @ js '' ('' @ ip @ js '') via '' @ iface)"
  let ?x = "host_route iface ip"
  let ?t = "tr @ [?i]"
  obtain r where a: "addSingleRoute w ?t ip iface = (r, ?t @ [?x])"
    unfolding host_route_def using addSingleRoute_ext by blast
  have x: "is_route_add ?x" by (rule is_route_add_host_route)
  have qx: "quiet iface ?x" by (simp add: host_route_def quiet_simps)
  show ?case
  proof (cases r)
    case (Inr u)
    then have ok: "fst (addSingleRoute w ?t ip iface) = Inr ()" using a by simp
    from Cons.IH [of "?t @ [?x]" "rc + 1" "all @ [ip]"] obtain evs steps where
      l: "addRoutesForDomains_ips w d iface ips (?t @ [?x]) (rc + 1) (all @ [ip])
           = ((?t @ [?x]) @ evs, (rc + 1) + length (kept w iface steps), (all @ [ip]) @ kept w iface steps)"
      and m: "map fst steps = ips"
      and sl: "list_all (step_logged w iface ((?t @ [?x]) @ evs)) steps"
      and q: "list_all (quiet iface) evs"
      and f: "filter is_route_add evs = map (host_route iface) ips" by blast
    let ?steps = "(ip, ?t) # steps"
    let ?evs = "?i # ?x # evs"
    have k: "kept w iface ?steps = ip # kept w iface steps" using ok by (rule kept_Cons_ok)
    have 1: "addRoutesForDomains_ips w d iface (ip # ips) tr rc all
        = (tr @ ?evs, rc + length (kept w iface ?steps), all @ kept w iface ?steps)"
      unfolding k using a Inr l by simp
    have 2: "map fst ?steps = ip # ips" using m by simp
    have "step_logged w iface (tr @ ?evs) (ip, ?t)"
      using ok by (simp add: step_logged_def)
    moreover have "list_all (step_logged w iface (tr @ ?evs)) steps" using sl by simp
    ultimately have 3: "list_all (step_logged w iface (tr @ ?evs)) ?steps" by simp
    have 4: "list_all (quiet iface) ?evs" using q qx by (simp add: quiet_simps)
    have 5: "filter is_route_add ?evs = map (host_route iface) (ip # ips)" using f x by simp
    show ?thesis using 1 2 3 4 5 by (intro exI [of _ ?evs] exI [of _ ?steps]) blast
  next
    case (Inl e)
    then have th: "fst (addSingleRoute w ?t ip iface) = Inl e" using a by simp
    let ?w = "Warning (js ''Failed to add route for '' @ ip @ js '': '' @ err_message e)"
    from Cons.IH [of "(?t @ [?x]) @ [?w]" rc all] obtain evs steps where
      l: "addRoutesForDomains_ips w d iface ips ((?t @ [?x]) @ [?w]) rc all
           = (((?t @ [?x]) @ [?w]) @ evs, rc + length (kept w iface steps), all @ kept w iface steps)"
      and m: "map fst steps = ips"
      and sl: "list_all (step_logged w iface (((?t @ [?x]) @ [?w]) @ evs)) steps"
      and q: "list_all (quiet iface) evs"
      and f: "filter is_route_add evs = map (host_route iface) ips" by blast
    let ?steps = "(ip, ?t) # steps"
    let ?evs = "?i # ?x # ?w # evs"
    have k: "kept w iface ?steps = kept w iface steps" using th by (rule kept_Cons_thrown)
    have 1: "addRoutesForDomains_ips w d iface (ip # ips) tr rc all
        = (tr @ ?evs, rc + length (kept w iface ?steps), all @ kept w iface ?steps)"
      unfolding k using a Inl l by simp
    have 2: "map fst ?steps = ip # ips" using m by simp
    have "step_logged w iface (tr @ ?evs) (ip, ?t)"
      using th by (simp add: step_logged_def)
    moreover have "list_all (step_logged w iface (tr @ ?evs)) steps" using sl by simp
    ultimately have 3: "list_all (step_logged w iface (tr @ ?evs)) ?steps" by simp
    have 4: "list_all (quiet iface) ?evs" using q qx by (simp add: quiet_simps)
    have 5: "filter is_route_add ?evs = map (host_route iface) (ip # ips)" using f x by simp
    show ?thesis using 1 2 3 4 5 by (intro exI [of _ ?evs] exI [of _ ?steps]) blast
  qed
qed

lemma addRoutesForDomains_loop_steps:
  "\<exists>evs stepss.
      addRoutesForDomains_loop w iface ds tr rc all =
        (Inr (rc + length (concat (map (kept w iface) stepss)), all @ concat (map (kept w iface) stepss)), tr @ evs) \<and>
      list_all (quiet iface) evs \<and>
      list_all2 (resolved_in w (tr @ evs)) ds stepss \<and>
      list_all (list_all (step_logged w iface (tr @ evs))) stepss \<and>
      filter is_route_add evs = map (host_route iface) (concat (map (map fst) stepss))"
proof (induction ds arbitrary: tr rc all)
  case Nil
  have "addRoutesForDomains_loop w iface [] tr rc all =
      (Inr (rc + length (concat (map (kept w iface) [])), all @ concat (map (kept w iface) [])), tr @ [])"
    by simp
  moreover have "list_all (quiet iface) []" by simp
  moreover have "list_all2 (resolved_in w (tr @ [])) [] []" by simp
  moreover have "list_all (list_all (step_logged w iface (tr @ []))) []" by simp
  moreover have "filter is_route_add [] = map (host_route iface) (concat (map (map fst) ([]::(jsstring \<times> trace) list list)))"
    by simp
  ultimately show ?case by (intro exI [of _ "[]"] exI [of _ "[]"]) blast
next
  case (Cons d ds)
  let ?i = "Info (js ''Resolving '' @ d @ js ''...'')"
  let ?t = "tr @ [?i]"
  from resolveDomainIPs_quiet [of w ?t d iface] obtain rs e1 where
    r: "resolveDomainIPs w ?t d = (Inr rs, ?t @ e1)" and q1: "list_all (quiet iface) e1"
    and n1: "filter is_route_add e1 = []" by blast
  from addRoutesForDomains_ips_steps [of w d iface rs "?t @ e1" rc all] obtain e2 steps where
    i: "addRoutesForDomains_ips w d iface rs (?t @ e1) rc all
         = ((?t @ e1) @ e2, rc + length (kept w iface steps), all @ kept w iface steps)"
    and m: "map fst steps = rs"
    and sl: "list_all (step_logged w iface ((?t @ e1) @ e2)) steps"
    and q2: "list_all (quiet iface) e2"
    and f2: "filter is_route_add e2 = map (host_route iface) rs" by blast
  from Cons.IH [of "(?t @ e1) @ e2" "rc + length (kept w iface steps)" "all @ kept w iface steps"]
  obtain e3 stepss where
    l: "addRoutesForDomains_loop w iface ds ((?t @ e1) @ e2) (rc + length (kept w iface steps)) (all @ kept w iface steps)
        = (Inr ((rc + length (kept w iface steps)) + length (concat (map (kept w iface) stepss)),
                (all @ kept w iface steps) @ concat (map (kept w iface) stepss)),
           ((?t @ e1) @ e2) @ e3)"
    and q3: "list_all (quiet iface) e3"
    and rr: "list_all2 (resolved_in w (((?t @ e1) @ e2) @ e3)) ds stepss"
    and ll: "list_all (list_all (step_logged w iface (((?t @ e1) @ e2) @ e3))) stepss"
    and f3: "filter is_route_add e3 = map (host_route iface) (concat (map (map fst) stepss))" by blast
  let ?evs = "?i # e1 @ e2 @ e3"
  let ?stepss = "steps # stepss"
  have fin: "((?t @ e1) @ e2) @ e3 = tr @ ?evs" by simp
  have 1: "addRoutesForDomains_loop w iface (d # ds) tr rc all =
        (Inr (rc + length (concat (map (kept w iface) ?stepss)), all @ concat (map (kept w iface) ?stepss)), tr @ ?evs)"
    using r i l by simp
  have 2: "list_all (quiet iface) ?evs" using q1 q2 q3 by (simp add: quiet_simps)
  have "resolved_in w (tr @ ?evs) d steps"
    unfolding resolved_in_def using r m by (intro exI [of _ ?t]) simp
  then have 3: "list_all2 (resolved_in w (tr @ ?evs)) (d # ds) ?stepss" using rr unfolding fin by simp
  have "prefix ((?t @ e1) @ e2) (tr @ ?evs)" by simp
  with sl have "list_all (step_logged w iface (tr @ ?evs)) steps" by (rule steps_logged_mono)
  then have 4: "list_all (list_all (step_logged w iface (tr @ ?evs))) ?stepss" using ll unfolding fin by simp
  have 5: "filter is_route_add ?evs = map (host_route iface) (concat (map (map fst) ?stepss))"
    using n1 f2 f3 m by simp
  show ?case using 1 2 3 4 5 by (intro exI [of _ ?evs] exI [of _ ?stepss]) blast
qed

lemma addRoutesForDomains_steps:
  "\<exists>evs stepss.
      addRoutesForDomains w tr ds iface = (Inr (concat (map (kept w iface) stepss)), tr @ evs) \<and>
      list_all (quiet iface) evs \<and>
      list_all2 (resolved_in w (tr @ evs)) ds stepss \<and>
      list_all (list_all (step_logged w iface (tr @ evs))) stepss \<and>
      filter is_route_add evs = map (host_route iface) (concat (map (map fst) stepss)) \<and>
      (ds = [] \<or>
       last evs = Info (js ''Added '' @ show_nat (length (concat (map (kept w iface) stepss))) @ js '' route(s) for domains.''))"
proof (cases "ds = []")
  case True
  have "addRoutesForDomains w tr ds iface = (Inr (concat (map (kept w iface) [])), tr @ [])"
    using True by (simp add: addRoutesForDomains_def)
  moreover have "list_all (quiet iface) []" by simp
  moreover have "list_all2 (resolved_in w (tr @ [])) ds []" using True by simp
  moreover have "list_all (list_all (step_logged w iface (tr @ []))) []" by simp
  moreover have "filter is_route_add [] = map (host_route iface) (concat (map (map fst) ([]::(jsstring \<times> trace) list list)))"
    by simp
  ultimately show ?thesis using True by (intro exI [of _ "[]"] exI [of _ "[]"]) blast
next
  case False
  let ?i = "Info (js ''Adding routes for '' @ show_nat (length ds) @ js '' domain(s)...'')"
  from addRoutesForDomains_loop_steps [of w iface ds "tr @ [?i]" 0 "[]"] obtain evs stepss where
    l: "addRoutesForDomains_loop w iface ds (tr @ [?i]) 0 [] =
        (Inr (0 + length (concat (map (kept w iface) stepss)), [] @ concat (map (kept w iface) stepss)), (tr @ [?i]) @ evs)"
    and q: "list_all (quiet iface) evs"
    and r: "list_all2 (resolved_in w ((tr @ [?i]) @ evs)) ds stepss"
    and s: "list_all (list_all (step_logged w iface ((tr @ [?i]) @ evs))) stepss"
    and f: "filter is_route_add evs = map (host_route iface) (concat (map (map fst) stepss))" by blast
  let ?o = "Info (js ''Added '' @ show_nat (length (concat (map (kept w iface) stepss))) @ js '' route(s) for domains.'')"
  let ?evs = "?i # evs @ [?o]"
  have p: "prefix ((tr @ [?i]) @ evs) (tr @ ?evs)" by simp
  have 1: "addRoutesForDomains w tr ds iface = (Inr (concat (map (kept w iface) stepss)), tr @ ?evs)"
    using False l by (simp add: addRoutesForDomains_def)
  have 2: "list_all (quiet iface) ?evs" using q by (simp add: quiet_simps)
  have 3: "list_all2 (resolved_in w (tr @ ?evs)) ds stepss" using r p by (rule resolved_all_mono)
  have 4: "list_all (list_all (step_logged w iface (tr @ ?evs))) stepss" using s p by (rule stepss_logged_mono)
  have 5: "filter is_route_add ?evs = map (host_route iface) (concat (map (map fst) stepss))" using f by simp
  have 6: "last ?evs = ?o" by simp
  show ?thesis using 1 2 3 4 5 6 by (intro exI [of _ ?evs] exI [of _ stepss]) blast
qed

lemma addRoutes_steps:
  "\<exists>evs stepss.
      addRoutes w tr ds ips iface = (Inr (concat (map (kept w iface) stepss) @ ips), tr @ evs) \<and>
      list_all (quiet iface) evs \<and>
      list_all2 (resolved_in w (tr @ evs)) ds stepss \<and>
      list_all (list_all (step_logged w iface (tr @ evs))) stepss \<and>
      filter is_route_add evs = map (host_route iface) (concat (map (map fst) stepss) @ ips)"
proof -
  from addRoutesForDomains_steps [of w tr ds iface] obtain e1 stepss where
    d: "addRoutesForDomains w tr ds iface = (Inr (concat (map (kept w iface) stepss)), tr @ e1)"
    and q1: "list_all (quiet iface) e1"
    and r: "list_all2 (resolved_in w (tr @ e1)) ds stepss"
    and s: "list_all (list_all (step_logged w iface (tr @ e1))) stepss"
    and f1: "filter is_route_add e1 = map (host_route iface) (concat (map (map fst) stepss))" by blast
  from addRoutesForIPs_ext [of w "tr @ e1" ips iface] obtain e2 k where
    i: "addRoutesForIPs w (tr @ e1) ips iface =
       (Inr (), (tr @ e1) @ (if ips = [] then []
                      else Info (js ''Adding routes for '' @ show_nat (length ips) @ js '' IP address(es)...'') # e2 @
                           [Info (js ''Added '' @ show_nat k @ js '' route(s) for IPs.'')]))"
    and q2: "list_all (quiet iface) e2"
    and f2: "filter is_route_add e2 = map (host_route iface) ips" by blast
  let ?e2 = "(if ips = [] then []
                      else Info (js ''Adding routes for '' @ show_nat (length ips) @ js '' IP address(es)...'') # e2 @
                           [Info (js ''Added '' @ show_nat k @ js '' route(s) for IPs.'')])"
  have p: "prefix (tr @ e1) (tr @ (e1 @ ?e2))" by simp
  have 1: "addRoutes w tr ds ips iface = (Inr (concat (map (kept w iface) stepss) @ ips), tr @ (e1 @ ?e2))"
    using d i by (simp add: addRoutes_def)
  have 2: "list_all (quiet iface) (e1 @ ?e2)" using q1 q2 by (simp add: quiet_simps)
  have 3: "list_all2 (resolved_in w (tr @ (e1 @ ?e2))) ds stepss" using r p by (rule resolved_all_mono)
  have 4: "list_all (list_all (step_logged w iface (tr @ (e1 @ ?e2)))) stepss" using s p by (rule stepss_logged_mono)
  have 5: "filter is_route_add (e1 @ ?e2) = map (host_route iface) (concat (map (map fst) stepss) @ ips)"
    using f1 f2 by simp
  show ?thesis using 1 2 3 4 5 by (intro exI [of _ "e1 @ ?e2"] exI [of _ stepss]) blast
qed

lemma routes_then_probe_steps:
  "\<exists>e1 e2 stepss.
      addRoutes w tr ds ips iface = (Inr (concat (map (kept w iface) stepss) @ ips), tr @ e1) \<and>
      list_all2 (resolved_in w (tr @ e1)) ds stepss \<and>
      list_all (list_all (step_logged w iface (tr @ e1))) stepss \<and>
      (if length (concat (map (kept w iface) stepss) @ ips) > 0
       then testConnectivity w (tr @ e1) (concat (map (kept w iface) stepss) @ ips)
       else (Inr (), tr @ e1)) = (Inr (), (tr @ e1) @ e2) \<and>
      filter is_Exec e2 = map ping_event (take 3 (concat (map (kept w iface) stepss) @ ips))"
proof -
  from addRoutes_steps [of w tr ds ips iface] obtain e1 stepss where
    a: "addRoutes w tr ds ips iface = (Inr (concat (map (kept w iface) stepss) @ ips), tr @ e1)"
    and r: "list_all2 (resolved_in w (tr @ e1)) ds stepss"
    and s: "list_all (list_all (step_logged w iface (tr @ e1))) stepss" by blast
  let ?L = "concat (map (kept w iface) stepss) @ ips"
  from probe_ext [of ?L w "tr @ e1" "[]"] obtain e2 where
    p: "(if length ?L > 0 then testConnectivity w (tr @ e1) ?L else (Inr (), tr @ e1)) = (Inr (), (tr @ e1) @ e2)"
    and f: "filter is_Exec e2 = map ping_event (take 3 ?L)" by blast
  show ?thesis using a r s p f by (intro exI [of _ e1] exI [of _ e2] exI [of _ stepss]) blast
qed

lemma handleAddRouteMode_split:
  "\<exists>e1 e2 fin stepss.
      handleAddRouteMode w tr ds ips iface =
        (Inr (), (tr @ [Info (js ''WireGuard interface '' @ apos @ iface @ apos @ js '' already exists. Adding routes...'')])
                    @ e1 @ e2 @ [fin]) \<and>
      \<not> is_Exec fin \<and>
      addRoutes w (tr @ [Info (js ''WireGuard interface '' @ apos @ iface @ apos @ js '' already exists. Adding routes...'')])
          ds ips iface =
        (Inr (concat (map (kept w iface) stepss) @ ips),
         (tr @ [Info (js ''WireGuard interface '' @ apos @ iface @ apos @ js '' already exists. Adding routes...'')]) @ e1) \<and>
      list_all2 (resolved_in w
          ((tr @ [Info (js ''WireGuard interface '' @ apos @ iface @ apos @ js '' already exists. Adding routes...'')]) @ e1))
        ds stepss \<and>
      list_all (list_all (step_logged w iface
          ((tr @ [Info (js ''WireGuard interface '' @ apos @ iface @ apos @ js '' already exists. Adding routes...'')]) @ e1)))
        stepss \<and>
      (if length (concat (map (kept w iface) stepss) @ ips) > 0
       then testConnectivity w
              ((tr @ [Info (js ''WireGuard interface '' @ apos @ iface @ apos @ js '' already exists. Adding routes...'')]) @ e1)
              (concat (map (kept w iface) stepss) @ ips)
       else (Inr (), (tr @ [Info (js ''WireGuard interface '' @ apos @ iface @ apos @ js '' already exists. Adding routes...'')]) @ e1))
        = (Inr (), ((tr @ [Info (js ''WireGuard interface '' @ apos @ iface @ apos @ js '' already exists. Adding routes...'')]) @ e1) @ e2) \<and>
      filter is_Exec e2 = map ping_event (take 3 (concat (map (kept w iface) stepss) @ ips))"
proof -
  let ?i = "Info (js ''WireGuard interface '' @ apos @ iface @ apos @ js '' already exists. Adding routes...'')"
  let ?pre = "tr @ [?i]"
  from routes_then_probe_steps [of w ?pre ds ips iface] obtain e1 e2 stepss where
    a: "addRoutes w ?pre ds ips iface = (Inr (concat (map (kept w iface) stepss) @ ips), ?pre @ e1)"
    and r: "list_all2 (resolved_in w (?pre @ e1)) ds stepss"
    and s: "list_all (list_all (step_logged w iface (?pre @ e1))) stepss"
    and p: "(if length (concat (map (kept w iface) stepss) @ ips) > 0
       then testConnectivity w (?pre @ e1) (concat (map (kept w iface) stepss) @ ips)
       else (Inr (), ?pre @ e1)) = (Inr (), (?pre @ e1) @ e2)"
    and f: "filter is_Exec e2 = map ping_event (take 3 (concat (map (kept w iface) stepss) @ ips))" by blast
  show ?thesis
  proof (cases "ds = [] \<and> ips = []")
    case True
    let ?fin = "Warning (js ''Interface exists but no domains or IPs specified. Nothing to do.'')"
    have h: "handleAddRouteMode w tr ds ips iface = (Inr (), ?pre @ [] @ [] @ [?fin])"
      using True by (simp add: handleAddRouteMode_def)
    have e: "\<not> is_Exec ?fin" by simp
    have a0: "addRoutes w ?pre ds ips iface = (Inr (concat (map (kept w iface) []) @ ips), ?pre @ [])"
      using True by (simp add: addRoutes_def addRoutesForDomains_def addRoutesForIPs_def)
    have r0: "list_all2 (resolved_in w (?pre @ [])) ds []" using True by simp
    have s0: "list_all (list_all (step_logged w iface (?pre @ []))) []" by simp
    have p0: "(if length (concat (map (kept w iface) []) @ ips) > 0
       then testConnectivity w (?pre @ []) (concat (map (kept w iface) []) @ ips)
       else (Inr (), ?pre @ [])) = (Inr (), (?pre @ []) @ [])" using True by simp
    have f0: "filter is_Exec [] = map ping_event (take 3 (concat (map (kept w iface) []) @ ips))" using True by simp
    show ?thesis using h e a0 r0 s0 p0 f0
      by (intro exI [of _ "[]"] exI [of _ ?fin]) blast
  next
    case False
    let ?fin = "Info (js ''Route addition complete.'')"
    have h: "handleAddRouteMode w tr ds ips iface = (Inr (), ?pre @ e1 @ e2 @ [?fin])"
      using False by (simp only: handleAddRouteMode_def Let_def a p prod.case sum.case if_False) simp
    have e: "\<not> is_Exec ?fin" by simp
    show ?thesis using h e a r s p f
      by (intro exI [of _ e1] exI [of _ e2] exI [of _ ?fin] exI [of _ stepss]) blast
  qed
qed

lemma handleSetupMode_split:
  assumes "setupWireGuard w (tr @ [Info (js ''Setting up WireGuard interface...'')]) config iface sd = (Inr u, pre)"
  shows "\<exists>e1 e2 fin stepss.
      handleSetupMode w tr config ds ips iface sd = (Inr (), pre @ e1 @ e2 @ [fin]) \<and>
      \<not> is_Exec fin \<and>
      addRoutes w pre ds ips iface = (Inr (concat (map (kept w iface) stepss) @ ips), pre @ e1) \<and>
      list_all2 (resolved_in w (pre @ e1)) ds stepss \<and>
      list_all (list_all (step_logged w iface (pre @ e1))) stepss \<and>
      (if length (concat (map (kept w iface) stepss) @ ips) > 0
       then testConnectivity w (pre @ e1) (concat (map (kept w iface) stepss) @ ips)
       else (Inr (), pre @ e1)) = (Inr (), (pre @ e1) @ e2) \<and>
      filter is_Exec e2 = map ping_event (take 3 (concat (map (kept w iface) stepss) @ ips))"
proof -
  from routes_then_probe_steps [of w pre ds ips iface] obtain e1 e2 stepss where
    a: "addRoutes w pre ds ips iface = (Inr (concat (map (kept w iface) stepss) @ ips), pre @ e1)"
    and r: "list_all2 (resolved_in w (pre @ e1)) ds stepss"
    and s: "list_all (list_all (step_logged w iface (pre @ e1))) stepss"
    and p: "(if length (concat (map (kept w iface) stepss) @ ips) > 0
       then testConnectivity w (pre @ e1) (concat (map (kept w iface) stepss) @ ips)
       else (Inr (), pre @ e1)) = (Inr (), (pre @ e1) @ e2)"
    and f: "filter is_Exec e2 = map ping_event (take 3 (concat (map (kept w iface) stepss) @ ips))" by blast
  let ?fin = "Info (js ''WireGuard setup complete.'')"
  have h: "handleSetupMode w tr config ds ips iface sd = (Inr (), pre @ e1 @ e2 @ [?fin])"
    by (simp only: handleSetupMode_def assms a p prod.case sum.case) simp
  have e: "\<not> is_Exec ?fin" by simp
  show ?thesis using h e a r s p f
    by (intro exI [of _ e1] exI [of _ e2] exI [of _ ?fin] exI [of _ stepss]) blast
qed

lemma run_split:
  assumes "\<not> failed (run w)"
  shows "\<exists>pre e1 e2 fin stepss.
      run w = pre @ e1 @ e2 @ [fin] \<and>
      filter is_route_add pre = [] \<and>
      \<not> is_Exec fin \<and>
      addRoutes w pre (input_domains w) (input_ips w) (input_iface w) =
        (Inr (concat (map (kept w (input_iface w)) stepss) @ input_ips w), pre @ e1) \<and>
      list_all2 (resolved_in w (pre @ e1)) (input_domains w) stepss \<and>
      list_all (list_all (step_logged w (input_iface w) (pre @ e1))) stepss \<and>
      (if length (concat (map (kept w (input_iface w)) stepss) @ input_ips w) > 0
       then testConnectivity w (pre @ e1) (concat (map (kept w (input_iface w)) stepss) @ input_ips w)
       else (Inr (), pre @ e1)) = (Inr (), (pre @ e1) @ e2) \<and>
      filter is_Exec e2 = map ping_event (take 3 (concat (map (kept w (input_iface w)) stepss) @ input_ips w))"
proof -
  let ?iface = "input_iface w"
  from assms have lin: "platform w = js ''linux''" and nf: "\<not> fatal_cause w"
    by (simp_all add: run_failed_iff)
  obtain r where c: "checkInterfaceExists w [] ?iface = (r, [link_show ?iface])"
    using checkInterfaceExists_ext [of w "[]" ?iface] by auto
  from nf c obtain ex where r: "r = Inr ex" by (cases r) (simp_all add: fatal_cause_def)
  have nl: "\<not> is_route_add (link_show ?iface)" by (rule link_show_props)
  show ?thesis
  proof (cases ex)
    case True
    let ?pre = "[link_show ?iface] @ [Info (js ''WireGuard interface '' @ apos @ ?iface @ apos @ js '' already exists. Adding routes...'')]"
    from handleAddRouteMode_split [of w "[link_show ?iface]" "input_domains w" "input_ips w" ?iface]
    obtain e1 e2 fin stepss where
      h: "handleAddRouteMode w [link_show ?iface] (input_domains w) (input_ips w) ?iface = (Inr (), ?pre @ e1 @ e2 @ [fin])"
      and rest: "\<not> is_Exec fin"
        "addRoutes w ?pre (input_domains w) (input_ips w) ?iface =
          (Inr (concat (map (kept w ?iface) stepss) @ input_ips w), ?pre @ e1)"
        "list_all2 (resolved_in w (?pre @ e1)) (input_domains w) stepss"
        "list_all (list_all (step_logged w ?iface (?pre @ e1))) stepss"
        "(if length (concat (map (kept w ?iface) stepss) @ input_ips w) > 0
          then testConnectivity w (?pre @ e1) (concat (map (kept w ?iface) stepss) @ input_ips w)
          else (Inr (), ?pre @ e1)) = (Inr (), (?pre @ e1) @ e2)"
        "filter is_Exec e2 = map ping_event (take 3 (concat (map (kept w ?iface) stepss) @ input_ips w))"
      by blast
    have np: "filter is_route_add ?pre = []" using nl by simp
    have "run_body w = (Inr (), ?pre @ e1 @ e2 @ [fin])" using c r True h by (simp add: run_body_def Let_def)
    then have "run w = ?pre @ e1 @ e2 @ [fin]" using lin by (simp add: run_def)
    then show ?thesis using np rest
      by (intro exI [of _ ?pre] exI [of _ e1] exI [of _ e2] exI [of _ fin] exI [of _ stepss]) blast
  next
    case False
    from nf c r False obtain config where g: "getInput w (js ''config'') True = Inr config"
      by (cases "getInput w (js ''config'') True") (simp_all add: fatal_cause_def)
    let ?t = "[link_show ?iface] @ [Info (js ''Setting up WireGuard interface...'')]"
    from nf c r False g have ni: "\<not> isl (fst (setupWireGuard w ?t config ?iface (input_stripDns w)))"
      by (simp add: fatal_cause_def)
    from setupWireGuard_ext [of w ?t config ?iface "input_stripDns w"] obtain evs where
      sn: "snd (setupWireGuard w ?t config ?iface (input_stripDns w)) = ?t @ evs"
      and ne: "filter is_route_add evs = []" by blast
    let ?pre = "?t @ evs"
    from ni sn obtain u where s: "setupWireGuard w ?t config ?iface (input_stripDns w) = (Inr u, ?pre)"
      by (cases "setupWireGuard w ?t config ?iface (input_stripDns w)"; cases "fst (setupWireGuard w ?t config ?iface (input_stripDns w))") auto
    have np: "filter is_route_add ?pre = []" using nl ne by simp
    from handleSetupMode_split [OF s, of "input_domains w" "input_ips w"]
    obtain e1 e2 fin stepss where
      h: "handleSetupMode w [link_show ?iface] config (input_domains w) (input_ips w) ?iface (input_stripDns w)
            = (Inr (), ?pre @ e1 @ e2 @ [fin])"
      and rest: "\<not> is_Exec fin"
        "addRoutes w ?pre (input_domains w) (input_ips w) ?iface =
          (Inr (concat (map (kept w ?iface) stepss) @ input_ips w), ?pre @ e1)"
        "list_all2 (resolved_in w (?pre @ e1)) (input_domains w) stepss"
        "list_all (list_all (step_logged w ?iface (?pre @ e1))) stepss"
        "(if length (concat (map (kept w ?iface) stepss) @ input_ips w) > 0
          then testConnectivity w (?pre @ e1) (concat (map (kept w ?iface) stepss) @ input_ips w)
          else (Inr (), ?pre @ e1)) = (Inr (), (?pre @ e1) @ e2)"
        "filter is_Exec e2 = map ping_event (take 3 (concat (map (kept w ?iface) stepss) @ input_ips w))"
      by blast
    have "run_body w = (Inr (), ?pre @ e1 @ e2 @ [fin])" using c r False g h by (simp add: run_body_def Let_def)
    then have "run w = ?pre @ e1 @ e2 @ [fin]" using lin by (simp add: run_def)
    then show ?thesis using np rest
      by (intro exI [of _ ?pre] exI [of _ e1] exI [of _ e2] exI [of _ fin] exI [of _ stepss]) blast
  qed
qed


section \<open>The claim on the combined address list\<close>

lemma inputs_two_families:
  "input_iface (test_host ex r4 r6 (domains_and_ips (js ''a.test'') (js ''10.0.0.5, 10.0.0.6''))) = js ''wg0''"
  "input_domains (test_host ex r4 r6 (domains_and_ips (js ''a.test'') (js ''10.0.0.5, 10.0.0.6''))) = [js ''a.test'']"
  "input_ips (test_host ex r4 r6 (domains_and_ips (js ''a.test'') (js ''10.0.0.5, 10.0.0.6'')))
     = [js ''10.0.0.5'', js ''10.0.0.6'']"
  by (simp_all add: input_iface_def input_domains_def input_ips_def input_or_empty_def getInput_def
      parseInputList_def trim_def is_ws_def comma_def test_host_def domains_and_ips_def js_def)

lemma run_two_families:
  "run (test_host (always_exit 0) (found_after 10 [js ''192.0.2.7'']) (found_after 10 [js ''2001:db8::1''])
          (domains_and_ips (js ''a.test'') (js ''10.0.0.5, 10.0.0.6''))) =
     [Exec (js ''ip'') [js ''link'', js ''show'', js ''wg0''],
      Info (js ''WireGuard interface '' @ apos @ js ''wg0'' @ apos @ js '' already exists. Adding routes...''),
      Info (js ''Adding routes for 1 domain(s)...''),
      Info (js ''Resolving a.test...''),
      Resolve4 (js ''a.test''),
      Resolve6 (js ''a.test''),
      Info (js ''Adding route for a.test (192.0.2.7) via wg0''),
      Exec (js ''sudo'') [js ''ip'', js ''route'', js ''add'', js ''192.0.2.7/32'', js ''dev'', js ''wg0''],
      Info (js ''Adding route for a.test (2001:db8::1) via wg0''),
      Exec (js ''sudo'') [js ''ip'', js ''-6'', js ''route'', js ''add'', js ''2001:db8::1/128'', js ''dev'', js ''wg0''],
      Info (js ''Added 2 route(s) for domains.''),
      Info (js ''Adding routes for 2 IP address(es)...''),
      Info (js ''Adding route for 10.0.0.5/32 via wg0''),
      Exec (js ''sudo'') [js ''ip'', js ''route'', js ''add'', js ''10.0.0.5/32'', js ''dev'', js ''wg0''],
      Info (js ''Adding route for 10.0.0.6/32 via wg0''),
      Exec (js ''sudo'') [js ''ip'', js ''route'', js ''add'', js ''10.0.0.6/32'', js ''dev'', js ''wg0''],
      Info (js ''Added 2 route(s) for IPs.''),
      Info (js ''Testing connectivity to routed IPs...''),
      Info (js ''Pinging 192.0.2.7...''),
      Exec (js ''ping'') [js ''-c'', js ''2'', js ''-W'', js ''3'', js ''192.0.2.7''],
      Info (js ''Pinging 2001:db8::1...''),
      Exec (js ''ping6'') [js ''-c'', js ''2'', js ''-W'', js ''3'', js ''2001:db8::1''],
      Info (js ''Pinging 10.0.0.5...''),
      Exec (js ''ping'') [js ''-c'', js ''2'', js ''-W'', js ''3'', js ''10.0.0.5''],
      Info (js ''Route addition complete.'')]"
proof -
  let ?w = "test_host (always_exit 0) (found_after 10 [js ''192.0.2.7'']) (found_after 10 [js ''2001:db8::1''])
          (domains_and_ips (js ''a.test'') (js ''10.0.0.5, 10.0.0.6''))"
  have p: "platform ?w = js ''linux''" by (simp add: test_host_def)
  have c: "checkInterfaceExists ?w [] (js ''wg0'') = (Inr True, [Exec (js ''ip'') [js ''link'', js ''show'', js ''wg0'']])"
    by (simp add: checkInterfaceExists_def exec_exec_def exec_settle_def test_host_def always_exit_def js_def)
  have h: "handleAddRouteMode ?w [Exec (js ''ip'') [js ''link'', js ''show'', js ''wg0'']] [js ''a.test'']
             [js ''10.0.0.5'', js ''10.0.0.6''] (js ''wg0'')
     = (Inr (), [Exec (js ''ip'') [js ''link'', js ''show'', js ''wg0''],
      Info (js ''WireGuard interface '' @ apos @ js ''wg0'' @ apos @ js '' already exists. Adding routes...''),
      Info (js ''Adding routes for 1 domain(s)...''),
      Info (js ''Resolving a.test...''),
      Resolve4 (js ''a.test''),
      Resolve6 (js ''a.test''),
      Info (js ''Adding route for a.test (192.0.2.7) via wg0''),
      Exec (js ''sudo'') [js ''ip'', js ''route'', js ''add'', js ''192.0.2.7/32'', js ''dev'', js ''wg0''],
      Info (js ''Adding route for a.test (2001:db8::1) via wg0''),
      Exec (js ''sudo'') [js ''ip'', js ''-6'', js ''route'', js ''add'', js ''2001:db8::1/128'', js ''dev'', js ''wg0''],
      Info (js ''Added 2 route(s) for domains.''),
      Info (js ''Adding routes for 2 IP address(es)...''),
      Info (js ''Adding route for 10.0.0.5/32 via wg0''),
      Exec (js ''sudo'') [js ''ip'', js ''route'', js ''add'', js ''10.0.0.5/32'', js ''dev'', js ''wg0''],
      Info (js ''Adding route for 10.0.0.6/32 via wg0''),
      Exec (js ''sudo'') [js ''ip'', js ''route'', js ''add'', js ''10.0.0.6/32'', js ''dev'', js ''wg0''],
      Info (js ''Added 2 route(s) for IPs.''),
      Info (js ''Testing connectivity to routed IPs...''),
      Info (js ''Pinging 192.0.2.7...''),
      Exec (js ''ping'') [js ''-c'', js ''2'', js ''-W'', js ''3'', js ''192.0.2.7''],
      Info (js ''Pinging 2001:db8::1...''),
      Exec (js ''ping6'') [js ''-c'', js ''2'', js ''-W'', js ''3'', js ''2001:db8::1''],
      Info (js ''Pinging 10.0.0.5...''),
      Exec (js ''ping'') [js ''-c'', js ''2'', js ''-W'', js ''3'', js ''10.0.0.5''],
      Info (js ''Route addition complete.'')])"
    by (simp add: handleAddRouteMode_def addRoutes_def addRoutesForDomains_def addRoutesForIPs_def
        resolveDomainIPs_def resolve_family_def resolveWithTimeout_def
        addSingleRoute_def testConnectivity_def exec_exec_def exec_settle_def exec_promise_def race_reject_def
        mk_error_def Let_def colon_def test_host_def always_exit_def found_after_def js_def apos_def)
  show ?thesis
    unfolding run_def run_body_def Let_def inputs_two_families c using p h by simp
qed

text \<open>
  Claim C5. \<open>addRoutes\<close> returns, for the prober, the addresses kept from the domains
  followed by the literal addresses \<open>ips\<close> as given. The first part is one block per
  domain, in the order of the domains; the block of a domain is made of the addresses of
  its resolution result, in the order of that result, each kept exactly when its route
  application did not throw. In every invocation that does not fail, the log is: what
  precedes the routes (no route application there), the log of \<open>addRoutes\<close> on the
  domains and addresses of the inputs, the log of the prober called with the list that
  \<open>addRoutes\<close> returned, whose commands are the probes of the first three addresses of
  that list, and one closing line. An invocation fails exactly for a platform other than
  Linux or for a fatal cause, both decided before any route.
\<close>

theorem combined_list_order:
  "(\<exists>e1 e2 stepss.
      addRoutes w tr ds ips iface = (Inr (concat (map (kept w iface) stepss) @ ips), tr @ e1) \<and>
      list_all2 (resolved_in w (tr @ e1)) ds stepss \<and>
      list_all (list_all (step_logged w iface (tr @ e1))) stepss \<and>
      (if length (concat (map (kept w iface) stepss) @ ips) > 0
       then testConnectivity w (tr @ e1) (concat (map (kept w iface) stepss) @ ips)
       else (Inr (), tr @ e1)) = (Inr (), (tr @ e1) @ e2) \<and>
      filter is_Exec e2 = map ping_event (take 3 (concat (map (kept w iface) stepss) @ ips))) \<and>
   failed (run w) = (platform w \<noteq> js ''linux'' \<or> fatal_cause w) \<and>
   (\<not> failed (run w) \<longrightarrow>
      (\<exists>pre e1 e2 fin stepss.
         run w = pre @ e1 @ e2 @ [fin] \<and>
         filter is_route_add pre = [] \<and>
         \<not> is_Exec fin \<and>
         addRoutes w pre (input_domains w) (input_ips w) (input_iface w) =
           (Inr (concat (map (kept w (input_iface w)) stepss) @ input_ips w), pre @ e1) \<and>
         list_all2 (resolved_in w (pre @ e1)) (input_domains w) stepss \<and>
         list_all (list_all (step_logged w (input_iface w) (pre @ e1))) stepss \<and>
         (if length (concat (map (kept w (input_iface w)) stepss) @ input_ips w) > 0
          then testConnectivity w (pre @ e1) (concat (map (kept w (input_iface w)) stepss) @ input_ips w)
          else (Inr (), pre @ e1)) = (Inr (), (pre @ e1) @ e2) \<and>
         filter is_Exec e2 = map ping_event (take 3 (concat (map (kept w (input_iface w)) stepss) @ input_ips w))))"
  using routes_then_probe_steps [of w tr ds ips iface] run_failed_iff [of w] run_split [of w]
  by (intro conjI impI) simp_all

text \<open>
  Claim C5 on a host where the interface exists and every command exits with 0, with the
  inputs \<open>domains = "a.test"\<close> (one IPv4 and one IPv6 address) and
  \<open>ips = "10.0.0.5, 10.0.0.6"\<close>: the invocation does not fail, its commands are the
  interface query, the four route applications (domain addresses first) and the probes
  of the IPv4 address of the domain, of its IPv6 address and of the first literal
  address.
\<close>

theorem combined_list_order_witness:
  "\<not> failed (run (test_host (always_exit 0) (found_after 10 [js ''192.0.2.7'']) (found_after 10 [js ''2001:db8::1''])
                    (domains_and_ips (js ''a.test'') (js ''10.0.0.5, 10.0.0.6'')))) \<and>
   (\<exists>pre e1 e2 fin stepss.
      run (test_host (always_exit 0) (found_after 10 [js ''192.0.2.7'']) (found_after 10 [js ''2001:db8::1''])
             (domains_and_ips (js ''a.test'') (js ''10.0.0.5, 10.0.0.6''))) = pre @ e1 @ e2 @ [fin] \<and>
      addRoutes (test_host (always_exit 0) (found_after 10 [js ''192.0.2.7'']) (found_after 10 [js ''2001:db8::1''])
             (domains_and_ips (js ''a.test'') (js ''10.0.0.5, 10.0.0.6''))) pre
          [js ''a.test''] [js ''10.0.0.5'', js ''10.0.0.6''] (js ''wg0'') =
        (Inr (concat (map (kept (test_host (always_exit 0) (found_after 10 [js ''192.0.2.7''])
                                   (found_after 10 [js ''2001:db8::1''])
                                   (domains_and_ips (js ''a.test'') (js ''10.0.0.5, 10.0.0.6''))) (js ''wg0'')) stepss)
              @ [js ''10.0.0.5'', js ''10.0.0.6'']), pre @ e1) \<and>
      filter is_Exec e2 =
        map ping_event (take 3 (concat (map (kept (test_host (always_exit 0) (found_after 10 [js ''192.0.2.7''])
                                   (found_after 10 [js ''2001:db8::1''])
                                   (domains_and_ips (js ''a.test'') (js ''10.0.0.5, 10.0.0.6''))) (js ''wg0'')) stepss)
              @ [js ''10.0.0.5'', js ''10.0.0.6'']))) \<and>
   filter is_Exec (run (test_host (always_exit 0) (found_after 10 [js ''192.0.2.7'']) (found_after 10 [js ''2001:db8::1''])
                    (domains_and_ips (js ''a.test'') (js ''10.0.0.5, 10.0.0.6'')))) =
     [Exec (js ''ip'') [js ''link'', js ''show'', js ''wg0''],
      Exec (js ''sudo'') [js ''ip'', js ''route'', js ''add'', js ''192.0.2.7/32'', js ''dev'', js ''wg0''],
      Exec (js ''sudo'') [js ''ip'', js ''-6'', js ''route'', js ''add'', js ''2001:db8::1/128'', js ''dev'', js ''wg0''],
      Exec (js ''sudo'') [js ''ip'', js ''route'', js ''add'', js ''10.0.0.5/32'', js ''dev'', js ''wg0''],
      Exec (js ''sudo'') [js ''ip'', js ''route'', js ''add'', js ''10.0.0.6/32'', js ''dev'', js ''wg0''],
      Exec (js ''ping'') [js ''-c'', js ''2'', js ''-W'', js ''3'', js ''192.0.2.7''],
      Exec (js ''ping6'') [js ''-c'', js ''2'', js ''-W'', js ''3'', js ''2001:db8::1''],
      Exec (js ''ping'') [js ''-c'', js ''2'', js ''-W'', js ''3'', js ''10.0.0.5'']]"
proof -
  let ?w = "test_host (always_exit 0) (found_after 10 [js ''192.0.2.7'']) (found_after 10 [js ''2001:db8::1''])
                    (domains_and_ips (js ''a.test'') (js ''10.0.0.5, 10.0.0.6''))"
  have n: "\<not> failed (run ?w)" unfolding run_two_families by (simp add: failed_def)
  have x: "filter is_Exec (run ?w) =
     [Exec (js ''ip'') [js ''link'', js ''show'', js ''wg0''],
      Exec (js ''sudo'') [js ''ip'', js ''route'', js ''add'', js ''192.0.2.7/32'', js ''dev'', js ''wg0''],
      Exec (js ''sudo'') [js ''ip'', js ''-6'', js ''route'', js ''add'', js ''2001:db8::1/128'', js ''dev'', js ''wg0''],
      Exec (js ''sudo'') [js ''ip'', js ''route'', js ''add'', js ''10.0.0.5/32'', js ''dev'', js ''wg0''],
      Exec (js ''sudo'') [js ''ip'', js ''route'', js ''add'', js ''10.0.0.6/32'', js ''dev'', js ''wg0''],
      Exec (js ''ping'') [js ''-c'', js ''2'', js ''-W'', js ''3'', js ''192.0.2.7''],
      Exec (js ''ping6'') [js ''-c'', js ''2'', js ''-W'', js ''3'', js ''2001:db8::1''],
      Exec (js ''ping'') [js ''-c'', js ''2'', js ''-W'', js ''3'', js ''10.0.0.5'']]"
    unfolding run_two_families by simp
  from combined_list_order [of ?w "[]" "[]" "[]" "[]"] n obtain pre e1 e2 fin stepss where
    r: "run ?w = pre @ e1 @ e2 @ [fin]"
    and a: "addRoutes ?w pre (input_domains ?w) (input_ips ?w) (input_iface ?w) =
           (Inr (concat (map (kept ?w (input_iface ?w)) stepss) @ input_ips ?w), pre @ e1)"
    and f: "filter is_Exec e2 = map ping_event (take 3 (concat (map (kept ?w (input_iface ?w)) stepss) @ input_ips ?w))"
    by blast
  have "\<exists>pre e1 e2 fin stepss.
      run ?w = pre @ e1 @ e2 @ [fin] \<and>
      addRoutes ?w pre [js ''a.test''] [js ''10.0.0.5'', js ''10.0.0.6''] (js ''wg0'') =
        (Inr (concat (map (kept ?w (js ''wg0'')) stepss) @ [js ''10.0.0.5'', js ''10.0.0.6'']), pre @ e1) \<and>
      filter is_Exec e2 =
        map ping_event (take 3 (concat (map (kept ?w (js ''wg0'')) stepss) @ [js ''10.0.0.5'', js ''10.0.0.6'']))"
    using r a f unfolding inputs_two_families by blast
  then show ?thesis using n x by blast
qed


section \<open>The claim on the route batches\<close>



end
